theory Spec2Isabelle
  imports Main "HOL-Library.Sublist"
begin

section \<open>JavaScript strings\<close>

text \<open>
  A JavaScript string is a sequence of UTF-16 code units, and \<open>length\<close>, \<open>indexOf\<close> and
  document positions all count code units. A string is therefore a list of code units,
  each a natural number below 65536. \<open>lit\<close> reads an ASCII literal.
\<close>

type_synonym code_unit = nat
type_synonym jsstring = "code_unit list"

definition lit :: "string \<Rightarrow> jsstring" where
  "lit s = map of_char s"

text \<open>
  \<open>String.prototype.toLowerCase\<close> (ECMAScript: the locale-insensitive case mappings of
  the Unicode Character Database, \<open>SpecialCasing.txt\<close> included) is modelled on the
  strings over a fixed alphabet, on which it works code unit by code unit:
  \<^item> the code units below 256 (ASCII and Latin-1), where the capital letters \<open>A\<close> to \<open>Z\<close>
    and U+00C0 to U+00DE without the multiplication sign U+00D7 move up by 32 and every
    other code unit has no lower-case mapping;
  \<^item> U+0130 (capital I with dot above), whose lower case is the two code units
    U+0069 U+0307;
  \<^item> U+0307 (combining dot above), which has no case mapping.
  On a string with any other code unit the result is \<open>None\<close>: the model does not say
  what the conversion gives there (other cased letters, the sigma whose lower case
  depends on its context, surrogate pairs).
\<close>

definition lowerUnit :: "code_unit \<Rightarrow> jsstring option" where
  "lowerUnit c =
     (if 65 \<le> c \<and> c \<le> 90 then Some [c + 32]
      else if 192 \<le> c \<and> c \<le> 222 \<and> c \<noteq> 215 then Some [c + 32]
      else if c = 304 then Some [105, 775]
      else if c < 256 \<or> c = 775 then Some [c]
      else None)"

fun toLowerCase :: "jsstring \<Rightarrow> jsstring option" where
  "toLowerCase [] = Some []"
| "toLowerCase (c # cs) =
     (case lowerUnit c of
        None \<Rightarrow> None
      | Some l \<Rightarrow> (case toLowerCase cs of None \<Rightarrow> None | Some ls \<Rightarrow> Some (l @ ls)))"

text \<open>
  \<open>String.prototype.indexOf(searchString)\<close>: the least index at which the search string
  starts, \<open>None\<close> standing for the result \<open>-1\<close>. The empty string is found at index 0.
\<close>

fun indexOf :: "jsstring \<Rightarrow> jsstring \<Rightarrow> nat option" where
  "indexOf [] s = (if s = [] then Some 0 else None)"
| "indexOf (c # cs) s =
     (if take (length s) (c # cs) = s then Some 0
      else map_option Suc (indexOf cs s))"

definition startsWith :: "jsstring \<Rightarrow> jsstring \<Rightarrow> bool" where
  "startsWith s p = (take (length p) s = p)"

text \<open>The decimal rendering of a number inside a template literal.\<close>

fun decimal :: "nat \<Rightarrow> jsstring" where
  "decimal n = (if n < 10 then [48 + n] else decimal (n div 10) @ [48 + n mod 10])"

declare decimal.simps [simp del]

text \<open>
  \<open>parseInt(string)\<close> with no radix: leading white space is skipped, a sign is read, a
  prefix \<open>0x\<close> or \<open>0X\<close> selects radix 16, and the longest run of digits is the value. No
  digit at all gives \<open>NaN\<close>. (Beyond \<open>2^53\<close> JavaScript rounds to a double; the integer is
  kept exact here, and negative zero is zero.)
\<close>

datatype jsnumber = Num int | NaN

definition isWhiteSpace :: "code_unit \<Rightarrow> bool" where
  "isWhiteSpace c =
     (c \<in> {9, 10, 11, 12, 13, 32, 160, 5760, 8232, 8233, 8239, 8287, 12288, 65279}
      \<or> (8192 \<le> c \<and> c \<le> 8202))"

definition digitValue :: "code_unit \<Rightarrow> nat option" where
  "digitValue c =
     (if 48 \<le> c \<and> c \<le> 57 then Some (c - 48)
      else if 97 \<le> c \<and> c \<le> 122 then Some (c - 87)
      else if 65 \<le> c \<and> c \<le> 90 then Some (c - 55)
      else None)"

fun parseDigits :: "nat \<Rightarrow> jsstring \<Rightarrow> nat option \<Rightarrow> nat option" where
  "parseDigits radix [] acc = acc"
| "parseDigits radix (c # cs) acc =
     (case digitValue c of
        None \<Rightarrow> acc
      | Some d \<Rightarrow>
          if d < radix
          then parseDigits radix cs (Some (radix * (case acc of None \<Rightarrow> 0 | Some a \<Rightarrow> a) + d))
          else acc)"

definition parseInt :: "jsstring \<Rightarrow> jsnumber" where
  "parseInt s =
     (let t = dropWhile isWhiteSpace s;
          neg = (t \<noteq> [] \<and> hd t = 45);
          u = (if t \<noteq> [] \<and> (hd t = 43 \<or> hd t = 45) then tl t else t);
          hex = (length u \<ge> 2 \<and> hd u = 48 \<and> (u ! 1 = 120 \<or> u ! 1 = 88));
          digits = (if hex then drop 2 u else u)
      in case parseDigits (if hex then 16 else 10) digits None of
           None \<Rightarrow> NaN
         | Some v \<Rightarrow> Num (if neg then - int v else int v))"

section \<open>The structural document model\<close>

text \<open>
  The schema built in \<open>connect\<close> has a root \<open>doc\<close> with content \<open>block+\<close>, the blocks
  \<open>paragraph\<close> and \<open>heading\<close> (attribute \<open>level\<close>) with content \<open>inline*\<close>, the inline
  node \<open>text\<close>, and no marks. ProseMirror joins adjacent text nodes with the same marks,
  so with no marks a block holds at most one text node: a block is its type and its
  text, the empty string standing for a block without a text node (ProseMirror has no
  empty text nodes).
\<close>

datatype blockType = Paragraph | Heading (level: jsnumber)

record block =
  btype :: blockType
  text_of :: jsstring

type_synonym document = "block list"

text \<open>
  Positions are offsets into the flattened token sequence: a block takes one position
  for its opening, one for each code unit of its text, and one for its closing.
\<close>

definition nodeSize :: "block \<Rightarrow> nat" where
  "nodeSize b = length (text_of b) + 2"

definition contentSize :: "document \<Rightarrow> nat" where
  "contentSize d = sum_list (map nodeSize d)"

text \<open>
  \<open>doc.resolve(pos)\<close>: a position is either at the top level, before the block with the
  given index (depth 0), or inside the block with the given index at the given offset
  into its text (depth 1). A position beyond the content raises \<open>RangeError\<close>, here
  \<open>None\<close>.
\<close>

datatype resolvedPos = AtTop nat | InBlock nat nat

fun resolveFrom :: "document \<Rightarrow> nat \<Rightarrow> nat \<Rightarrow> resolvedPos option" where
  "resolveFrom [] pos i = (if pos = 0 then Some (AtTop i) else None)"
| "resolveFrom (b # bs) pos i =
     (if pos = 0 then Some (AtTop i)
      else if pos < nodeSize b then Some (InBlock i (pos - 1))
      else resolveFrom bs (pos - nodeSize b) (Suc i))"

definition resolve :: "document \<Rightarrow> nat \<Rightarrow> resolvedPos option" where
  "resolve d pos = resolveFrom d pos 0"

text \<open>The position just before the block with index \<open>i\<close>.\<close>

definition blockStart :: "document \<Rightarrow> nat \<Rightarrow> nat" where
  "blockStart d i = contentSize (take i d)"

section \<open>Selections\<close>

text \<open>
  A selection is a pair of offsets (anchor, head), or the whole-document placeholder
  \<open>AllSelection\<close>, whose anchor is 0 and whose head is the size of the content. The
  start \<open>$from\<close> of a selection is the smaller of the two offsets and its end \<open>to\<close> the
  larger.
\<close>

datatype selection = TextSelection nat nat | AllSelection

fun anchor :: "document \<Rightarrow> selection \<Rightarrow> nat" where
  "anchor d (TextSelection a h) = a"
| "anchor d AllSelection = 0"

fun head :: "document \<Rightarrow> selection \<Rightarrow> nat" where
  "head d (TextSelection a h) = h"
| "head d AllSelection = contentSize d"

definition selFrom :: "document \<Rightarrow> selection \<Rightarrow> nat" where
  "selFrom d s = min (anchor d s) (head d s)"

definition selTo :: "document \<Rightarrow> selection \<Rightarrow> nat" where
  "selTo d s = max (anchor d s) (head d s)"

datatype error = RangeError jsstring | Error jsstring

fun errorMessage :: "error \<Rightarrow> jsstring" where
  "errorMessage (RangeError m) = m"
| "errorMessage (Error m) = m"

definition outOfRange :: "nat \<Rightarrow> error" where
  "outOfRange pos = RangeError (lit ''Position '' @ decimal pos @ lit '' out of range'')"

text \<open>
  \<open>TextSelection.create(doc, anchor, head)\<close> resolves the anchor, then the head; a text
  selection whose ends are not in inline content is only warned about.
\<close>

definition textSelectionCreate :: "document \<Rightarrow> nat \<Rightarrow> nat \<Rightarrow> error + selection" where
  "textSelectionCreate d a h =
     (case resolve d a of
        None \<Rightarrow> Inl (outOfRange a)
      | Some _ \<Rightarrow>
          (case resolve d h of
             None \<Rightarrow> Inl (outOfRange h)
           | Some _ \<Rightarrow> Inr (TextSelection a h)))"

text \<open>
  \<open>Selection.atStart(doc)\<close>, the selection of a fresh editor state: a cursor at the start
  of the first block, or the placeholder when the document has no block.
\<close>

definition atStart :: "document \<Rightarrow> selection" where
  "atStart d = (if d = [] then AllSelection else TextSelection 1 1)"

text \<open>
  \<open>Selection.near\<close> at a top-level position before the block with index \<open>k\<close>: the start
  of that block, else the end of the block before, else the placeholder.
\<close>

definition near :: "document \<Rightarrow> nat \<Rightarrow> nat \<Rightarrow> selection" where
  "near d pos k =
     (if k < length d then TextSelection (pos + 1) (pos + 1)
      else if 0 < k then TextSelection (pos - 1) (pos - 1)
      else AllSelection)"

text \<open>
  A replace step maps positions by its range (start, old size, new size), here with the
  default association to the right: a position before the range stays, one after it is
  shifted, the start of a non-empty range stays, and any other position of the range
  moves to the end of the replacement.
\<close>

type_synonym stepMap = "nat \<times> nat \<times> nat"

fun mapPos :: "stepMap \<Rightarrow> nat \<Rightarrow> nat" where
  "mapPos (start, oldSize, newSize) pos =
     (if pos < start then pos
      else if pos \<le> start + oldSize
      then (if oldSize \<noteq> 0 \<and> pos = start then start else start + newSize)
      else pos - oldSize + newSize)"

text \<open>
  \<open>Selection.map\<close> through a step, in the changed document: the placeholder stays the
  placeholder; a text selection maps its head, falls back to \<open>Selection.near\<close> when the
  head is no longer in a block, and keeps the mapped anchor when that is in a block.
\<close>

fun mapSelection :: "document \<Rightarrow> stepMap \<Rightarrow> selection \<Rightarrow> error + selection" where
  "mapSelection d m AllSelection = Inr AllSelection"
| "mapSelection d m (TextSelection a h) =
     (case resolve d (mapPos m h) of
        None \<Rightarrow> Inl (outOfRange (mapPos m h))
      | Some (AtTop k) \<Rightarrow> Inr (near d (mapPos m h) k)
      | Some (InBlock i off) \<Rightarrow>
          (case resolve d (mapPos m a) of
             None \<Rightarrow> Inl (outOfRange (mapPos m a))
           | Some (AtTop k) \<Rightarrow> Inr (TextSelection (mapPos m h) (mapPos m h))
           | Some (InBlock j off') \<Rightarrow> Inr (TextSelection (mapPos m a) (mapPos m h))))"

section \<open>Sessions and the cursor projection plugin\<close>

text \<open>
  The awareness record of the local participant: the published cursor marker (a pair of
  structure-relative positions, or none), and the log of every
  \<open>setLocalStateField('cursor', ...)\<close> call, latest first. A session (the \<open>connection\<close>
  object of the source) has the identity of its provider, the state of its editor view
  (document and selection) and its awareness record.
\<close>

record 'r awareness =
  cursor :: "('r \<times> 'r) option"
  broadcasts :: "('r \<times> 'r) option list"

record 'r connection =
  provider :: nat
  doc :: document
  selection :: selection
  awareness :: "'r awareness"

definition setCursorField :: "('r \<times> 'r) option \<Rightarrow> 'r awareness \<Rightarrow> 'r awareness" where
  "setCursorField v aw = aw\<lparr>cursor := v, broadcasts := v # broadcasts aw\<rparr>"

text \<open>
  \<open>updateCursorInfo\<close> of \<open>yHeadlessCursorPlugin\<close>, run on every update of the view. The
  conversion \<open>absolutePositionToRelativePosition\<close> of y-prosemirror is the parameter
  \<open>toRel\<close>; \<open>Y.compareRelativePositions\<close> is equality of its results.
\<close>

definition updateCursorInfo :: "(document \<Rightarrow> nat \<Rightarrow> 'r) \<Rightarrow> 'r connection \<Rightarrow> 'r connection" where
  "updateCursorInfo toRel c =
     (case selection c of
        AllSelection \<Rightarrow> c
      | TextSelection a h \<Rightarrow>
          (let ra = toRel (doc c) a; rh = toRel (doc c) h
           in if (case cursor (awareness c) of
                    None \<Rightarrow> True
                  | Some (ca, ch) \<Rightarrow> ca \<noteq> ra \<or> ch \<noteq> rh)
              then c\<lparr>awareness := setCursorField (Some (ra, rh)) (awareness c)\<rparr>
              else c))"

text \<open>The plugin's \<open>destroy\<close>: a null cursor is published.\<close>

definition destroyCursor :: "'r connection \<Rightarrow> 'r connection" where
  "destroyCursor c = c\<lparr>awareness := setCursorField None (awareness c)\<rparr>"

text \<open>
  \<open>view.dispatch(tr)\<close>: the view takes the transaction's document and selection, then
  the plugin views are updated.
\<close>

definition dispatch :: "(document \<Rightarrow> nat \<Rightarrow> 'r) \<Rightarrow> 'r connection \<Rightarrow> document \<Rightarrow> selection \<Rightarrow> 'r connection" where
  "dispatch toRel c d s = updateCursorInfo toRel (c\<lparr>doc := d, selection := s\<rparr>)"

section \<open>Transactions\<close>

text \<open>
  \<open>schema.text(text)\<close>: ProseMirror refuses an empty text node.
\<close>

definition schemaText :: "jsstring \<Rightarrow> error + jsstring" where
  "schemaText t =
     (if t = [] then Inl (RangeError (lit ''Empty text nodes are not allowed'')) else Inr t)"

text \<open>
  \<open>tr.replaceWith(from, to, textNode)\<close>. Both ends are resolved (\<open>from\<close> first). When
  they lie in the same block the text between them is replaced and joined with the text
  around it. When they do not, ProseMirror runs its general fitting algorithm, which this
  development does not model: the result is \<open>None\<close>.
\<close>

definition replaceWith :: "document \<Rightarrow> nat \<Rightarrow> nat \<Rightarrow> jsstring \<Rightarrow> (error + document \<times> stepMap) option" where
  "replaceWith d from to t =
     (case resolve d from of
        None \<Rightarrow> Some (Inl (outOfRange from))
      | Some rf \<Rightarrow>
          (case resolve d to of
             None \<Rightarrow> Some (Inl (outOfRange to))
           | Some rt \<Rightarrow>
               (case (rf, rt) of
                  (InBlock i a, InBlock j b) \<Rightarrow>
                    if i = j \<and> a \<le> b
                    then Some (Inr (d[i := (d ! i)\<lparr>text_of := take a (text_of (d ! i)) @ t @ drop b (text_of (d ! i))\<rparr>],
                                    (from, to - from, length t)))
                    else None
                | _ \<Rightarrow> None)))"

text \<open>
  \<open>tr.insert(pos, node)\<close> of a block node. At the top level the node is placed between
  the blocks. Inside a block the block is split around the node; at the end of a block's
  text nothing is split off and the node follows the block.
\<close>

definition insert :: "document \<Rightarrow> nat \<Rightarrow> block \<Rightarrow> error + document \<times> stepMap" where
  "insert d pos node =
     (case resolve d pos of
        None \<Rightarrow> Inl (outOfRange pos)
      | Some (AtTop k) \<Rightarrow> Inr (take k d @ [node] @ drop k d, (pos, 0, nodeSize node))
      | Some (InBlock i off) \<Rightarrow>
          (let b = d ! i in
           if off = length (text_of b)
           then Inr (take (Suc i) d @ [node] @ drop (Suc i) d, (pos, 1, nodeSize node + 1))
           else Inr (take i d
                       @ [b\<lparr>text_of := take off (text_of b)\<rparr>, node, b\<lparr>text_of := drop off (text_of b)\<rparr>]
                       @ drop (Suc i) d,
                     (pos, 0, nodeSize node + 2))))"

text \<open>
  \<open>tr.delete(from, to)\<close> over the span of the block with index \<open>i\<close>. The root needs at
  least one block (\<open>block+\<close>): deleting the only block leaves an empty paragraph in its
  place.
\<close>

definition deleteSpan :: "document \<Rightarrow> nat \<Rightarrow> document \<times> stepMap" where
  "deleteSpan d i =
     (if 1 < length d
      then (take i d @ drop (Suc i) d, (blockStart d i, nodeSize (d ! i), 0))
      else ([\<lparr>btype = Paragraph, text_of = []\<rparr>], (blockStart d i, nodeSize (d ! i), 2)))"

section \<open>The document operations\<close>

record result =
  success :: bool
  message :: jsstring
  position :: "(nat \<times> nat) option"

text \<open>The \<open>catch\<close> of every operation.\<close>

definition failed :: "error \<Rightarrow> result" where
  "failed e = \<lparr>success = False, message = lit ''Error: '' @ errorMessage e, position = None\<rparr>"

definition notFound :: "jsstring \<Rightarrow> result" where
  "notFound s = \<lparr>success = False, message = lit ''Text \"'' @ s @ lit ''\" not found'', position = None\<rparr>"

text \<open>
  \<open>findText\<close>: \<open>doc.descendants\<close> visits each block and then its text node, which starts
  one position after the block's start; the first text node whose lower-cased text
  contains the lower-cased search text decides. The result is \<open>Some None\<close> for \<open>null\<close>
  and \<open>Some (Some (from, to))\<close> for a span; it is \<open>None\<close> when a text that is lower-cased
  on the way has a code unit beyond the alphabet of \<open>toLowerCase\<close> above, where the model
  does not say what the code does.
\<close>

fun findTextFrom :: "document \<Rightarrow> nat \<Rightarrow> jsstring \<Rightarrow> nat option option" where
  "findTextFrom [] pos s = Some None"
| "findTextFrom (b # bs) pos s =
     (if text_of b = [] then findTextFrom bs (pos + nodeSize b) s
      else (case toLowerCase (text_of b) of
              None \<Rightarrow> None
            | Some lowerText \<Rightarrow>
                (case toLowerCase s of
                   None \<Rightarrow> None
                 | Some lowerSearch \<Rightarrow>
                     (case indexOf lowerText lowerSearch of
                        Some index \<Rightarrow> Some (Some (pos + 1 + index))
                      | None \<Rightarrow> findTextFrom bs (pos + nodeSize b) s))))"

definition findText :: "document \<Rightarrow> jsstring \<Rightarrow> (nat \<times> nat) option option" where
  "findText d searchText =
     map_option (map_option (\<lambda>foundPos. (foundPos, foundPos + length searchText)))
       (findTextFrom d 0 searchText)"

text \<open>
  The body of each operation on the session that \<open>connect\<close> returned: \<open>Inl\<close> is an
  exception on its way to the \<open>catch\<close>, \<open>Inr\<close> the result with the session after it.
  The two operations that search are \<open>None\<close> where \<open>findText\<close> is.
\<close>

definition positionCursorOn :: "(document \<Rightarrow> nat \<Rightarrow> 'r) \<Rightarrow> 'r connection \<Rightarrow> jsstring \<Rightarrow> (error + result \<times> 'r connection) option" where
  "positionCursorOn toRel c searchText =
     (case findText (doc c) searchText of
        None \<Rightarrow> None
      | Some (Some (from, to)) \<Rightarrow>
          (case textSelectionCreate (doc c) from to of
             Inl e \<Rightarrow> Some (Inl e)
           | Inr sel \<Rightarrow>
               Some (Inr (\<lparr>success = True,
                           message = lit ''Found \"'' @ searchText @ lit ''\" at position ''
                                       @ decimal from @ lit ''-'' @ decimal to,
                           position = Some (from, to)\<rparr>,
                          dispatch toRel c (doc c) sel)))
      | Some None \<Rightarrow> Some (Inr (notFound searchText, c)))"

text \<open>
  \<open>deleteBlock\<close>: \<open>$from.parent\<close> is always a node (the root at depth 0), so the branch
  \<open>No block to delete\<close> is never taken; at depth 0 \<open>$from.before()\<close> raises.
\<close>

definition deleteBlockOn :: "(document \<Rightarrow> nat \<Rightarrow> 'r) \<Rightarrow> 'r connection \<Rightarrow> error + result \<times> 'r connection" where
  "deleteBlockOn toRel c =
     (case resolve (doc c) (selFrom (doc c) (selection c)) of
        None \<Rightarrow> Inl (outOfRange (selFrom (doc c) (selection c)))
      | Some (AtTop k) \<Rightarrow> Inl (RangeError (lit ''There is no position before the top-level node''))
      | Some (InBlock i off) \<Rightarrow>
          (case deleteSpan (doc c) i of
             (d', m) \<Rightarrow>
               (case mapSelection d' m (selection c) of
                  Inl e \<Rightarrow> Inl e
                | Inr sel \<Rightarrow>
                    Inr (\<lparr>success = True, message = lit ''Block deleted successfully'', position = None\<rparr>,
                         dispatch toRel c d' sel))))"

text \<open>
  The node that \<open>insertAtCursor\<close> builds. With \<open>nodeType\<close> starting with \<open>heading\<close>,
  \<open>nodeType.replace('heading', '')\<close> is the rest of the string.
\<close>

definition createNode :: "jsstring \<Rightarrow> jsstring \<Rightarrow> error + block" where
  "createNode nodeType text =
     (if nodeType = lit ''paragraph''
      then (case schemaText text of Inl e \<Rightarrow> Inl e | Inr t \<Rightarrow> Inr \<lparr>btype = Paragraph, text_of = t\<rparr>)
      else if startsWith nodeType (lit ''heading'')
      then (let level = parseInt (drop (length (lit ''heading'')) nodeType)
            in case schemaText text of Inl e \<Rightarrow> Inl e | Inr t \<Rightarrow> Inr \<lparr>btype = Heading level, text_of = t\<rparr>)
      else (case schemaText text of Inl e \<Rightarrow> Inl e | Inr t \<Rightarrow> Inr \<lparr>btype = Paragraph, text_of = t\<rparr>))"

definition insertAtCursorOn :: "(document \<Rightarrow> nat \<Rightarrow> 'r) \<Rightarrow> 'r connection \<Rightarrow> jsstring \<Rightarrow> jsstring \<Rightarrow> error + result \<times> 'r connection" where
  "insertAtCursorOn toRel c text nodeType =
     (case createNode nodeType text of
        Inl e \<Rightarrow> Inl e
      | Inr node \<Rightarrow>
          (case insert (doc c) (selTo (doc c) (selection c)) node of
             Inl e \<Rightarrow> Inl e
           | Inr (d', m) \<Rightarrow>
               (case mapSelection d' m (selection c) of
                  Inl e \<Rightarrow> Inl e
                | Inr sel \<Rightarrow>
                    Inr (\<lparr>success = True, message = nodeType @ lit '' inserted successfully'', position = None\<rparr>,
                         dispatch toRel c d' sel))))"

definition replaceTextOn :: "(document \<Rightarrow> nat \<Rightarrow> 'r) \<Rightarrow> 'r connection \<Rightarrow> jsstring \<Rightarrow> jsstring \<Rightarrow> (error + result \<times> 'r connection) option" where
  "replaceTextOn toRel c findText' replaceText' =
     (case findText (doc c) findText' of
        None \<Rightarrow> None
      | Some (Some (from, to)) \<Rightarrow>
          (case schemaText replaceText' of
             Inl e \<Rightarrow> Some (Inl e)
           | Inr t \<Rightarrow>
               (case replaceWith (doc c) from to t of
                  None \<Rightarrow> None
                | Some (Inl e) \<Rightarrow> Some (Inl e)
                | Some (Inr (d', m)) \<Rightarrow>
                    (case mapSelection d' m (selection c) of
                       Inl e \<Rightarrow> Some (Inl e)
                     | Inr sel \<Rightarrow>
                         Some (Inr (\<lparr>success = True, message = lit ''Text replaced successfully'', position = None\<rparr>,
                                    dispatch toRel c d' sel)))))
      | Some None \<Rightarrow> Some (Inr (notFound findText', c)))"

section \<open>The session cache\<close>

text \<open>
  \<open>DocumentOperations\<close> holds the map \<open>connections\<close> from cache keys to sessions; \<open>opened\<close>
  counts the providers (network connections) created so far and names the next one.
\<close>

record 'r documentOperations =
  connections :: "jsstring \<rightharpoonup> 'r connection"
  opened :: nat

definition cacheKey :: "jsstring \<Rightarrow> jsstring \<Rightarrow> jsstring" where
  "cacheKey docUrl collabUrl = collabUrl @ lit '':'' @ docUrl"

text \<open>
  What the environment decides for one \<open>connect\<close>: whether the provider is synced at
  once, its \<open>sync\<close> event arrives before the 10000 ms timer fires, or the timer fires
  first; and the document that the synced replicated state holds.
\<close>

datatype syncWait = AlreadySynced | SyncFirst | TimerFirst

record environment =
  sync :: syncWait
  remoteDoc :: document

text \<open>
  The session that \<open>connect\<close> builds once the provider is synced: the view starts on
  the document of the replicated state with the selection of a fresh editor state, and
  no cursor is published yet. The service starts with no session.
\<close>

definition newConnection :: "nat \<Rightarrow> document \<Rightarrow> 'r connection" where
  "newConnection p d =
     \<lparr>provider = p, doc = d, selection = atStart d, awareness = \<lparr>cursor = None, broadcasts = []\<rparr>\<rparr>"

definition noConnections :: "'r documentOperations" where
  "noConnections = \<lparr>connections = Map.empty, opened = 0\<rparr>"

text \<open>
  \<open>connect\<close> runs in two parts, around its \<open>await\<close>. The first part looks the key up
  and, on a miss, creates the provider. The second part runs when the wait is over:
  on the timer it raises, otherwise it builds the view and stores the session.
\<close>

datatype 'r started = Cached "'r connection" | Waiting nat

definition connectStart :: "'r documentOperations \<Rightarrow> jsstring \<Rightarrow> jsstring \<Rightarrow> 'r started \<times> 'r documentOperations" where
  "connectStart st docUrl collabUrl =
     (case connections st (cacheKey docUrl collabUrl) of
        Some c \<Rightarrow> (Cached c, st)
      | None \<Rightarrow> (Waiting (opened st), st\<lparr>opened := Suc (opened st)\<rparr>))"

definition connectResume :: "environment \<Rightarrow> 'r documentOperations \<Rightarrow> jsstring \<Rightarrow> jsstring \<Rightarrow> nat \<Rightarrow> (error + 'r connection) \<times> 'r documentOperations" where
  "connectResume env st docUrl collabUrl p =
     (case sync env of
        TimerFirst \<Rightarrow> (Inl (Error (lit ''Sync timeout'')), st)
      | _ \<Rightarrow>
          (let c = newConnection p (remoteDoc env)
           in (Inr c, st\<lparr>connections := (connections st)(cacheKey docUrl collabUrl \<mapsto> c)\<rparr>)))"

text \<open>One call of \<open>connect\<close> with nothing running in between.\<close>

definition connect :: "environment \<Rightarrow> 'r documentOperations \<Rightarrow> jsstring \<Rightarrow> jsstring \<Rightarrow> (error + 'r connection) \<times> 'r documentOperations" where
  "connect env st docUrl collabUrl =
     (case connectStart st docUrl collabUrl of
        (Cached c, st') \<Rightarrow> (Inr c, st')
      | (Waiting p, st') \<Rightarrow> connectResume env st' docUrl collabUrl p)"

definition disconnect :: "'r documentOperations \<Rightarrow> jsstring \<Rightarrow> jsstring \<Rightarrow> 'r documentOperations" where
  "disconnect st docUrl collabUrl =
     (case connections st (cacheKey docUrl collabUrl) of
        Some c \<Rightarrow> st\<lparr>connections := (connections st)(cacheKey docUrl collabUrl := None)\<rparr>
      | None \<Rightarrow> st)"

text \<open>
  The operations as the service exports them: \<open>connect\<close>, then the body on the session,
  which is the object the cache holds under the key; every exception ends in the
  \<open>catch\<close>.
\<close>

definition finish :: "'r documentOperations \<Rightarrow> jsstring \<Rightarrow> error + result \<times> 'r connection \<Rightarrow> result \<times> 'r documentOperations" where
  "finish st k r =
     (case r of
        Inl e \<Rightarrow> (failed e, st)
      | Inr (res, c') \<Rightarrow> (res, st\<lparr>connections := (connections st)(k \<mapsto> c')\<rparr>))"

definition positionCursor :: "(document \<Rightarrow> nat \<Rightarrow> 'r) \<Rightarrow> environment \<Rightarrow> 'r documentOperations \<Rightarrow> jsstring \<Rightarrow> jsstring \<Rightarrow> jsstring \<Rightarrow> (result \<times> 'r documentOperations) option" where
  "positionCursor toRel env st docUrl collabUrl searchText =
     (case connect env st docUrl collabUrl of
        (Inl e, st') \<Rightarrow> Some (failed e, st')
      | (Inr c, st') \<Rightarrow>
          map_option (finish st' (cacheKey docUrl collabUrl)) (positionCursorOn toRel c searchText))"

definition deleteBlock :: "(document \<Rightarrow> nat \<Rightarrow> 'r) \<Rightarrow> environment \<Rightarrow> 'r documentOperations \<Rightarrow> jsstring \<Rightarrow> jsstring \<Rightarrow> result \<times> 'r documentOperations" where
  "deleteBlock toRel env st docUrl collabUrl =
     (case connect env st docUrl collabUrl of
        (Inl e, st') \<Rightarrow> (failed e, st')
      | (Inr c, st') \<Rightarrow> finish st' (cacheKey docUrl collabUrl) (deleteBlockOn toRel c))"

definition insertAtCursor :: "(document \<Rightarrow> nat \<Rightarrow> 'r) \<Rightarrow> environment \<Rightarrow> 'r documentOperations \<Rightarrow> jsstring \<Rightarrow> jsstring \<Rightarrow> jsstring \<Rightarrow> jsstring \<Rightarrow> result \<times> 'r documentOperations" where
  "insertAtCursor toRel env st docUrl collabUrl text nodeType =
     (case connect env st docUrl collabUrl of
        (Inl e, st') \<Rightarrow> (failed e, st')
      | (Inr c, st') \<Rightarrow> finish st' (cacheKey docUrl collabUrl) (insertAtCursorOn toRel c text nodeType))"

definition replaceText :: "(document \<Rightarrow> nat \<Rightarrow> 'r) \<Rightarrow> environment \<Rightarrow> 'r documentOperations \<Rightarrow> jsstring \<Rightarrow> jsstring \<Rightarrow> jsstring \<Rightarrow> jsstring \<Rightarrow> (result \<times> 'r documentOperations) option" where
  "replaceText toRel env st docUrl collabUrl findText' replaceText' =
     (case connect env st docUrl collabUrl of
        (Inl e, st') \<Rightarrow> Some (failed e, st')
      | (Inr c, st') \<Rightarrow>
          map_option (finish st' (cacheKey docUrl collabUrl)) (replaceTextOn toRel c findText' replaceText'))"

text \<open>
  Two calls of \<open>connect\<close> for one identity that overlap: the second call starts while the
  first is waiting for its provider, and the two waits end in either order.
\<close>

definition connectTwice :: "environment \<Rightarrow> environment \<Rightarrow> bool \<Rightarrow> 'r documentOperations \<Rightarrow> jsstring \<Rightarrow> jsstring \<Rightarrow> ((error + 'r connection) \<times> (error + 'r connection)) \<times> 'r documentOperations" where
  "connectTwice env1 env2 firstEndsFirst st docUrl collabUrl =
     (case connectStart st docUrl collabUrl of
        (Cached c1, st1) \<Rightarrow>
          (case connect env2 st1 docUrl collabUrl of (r2, st2) \<Rightarrow> ((Inr c1, r2), st2))
      | (Waiting p1, st1) \<Rightarrow>
          (case connectStart st1 docUrl collabUrl of
             (Cached c2, st2) \<Rightarrow>
               (case connectResume env1 st2 docUrl collabUrl p1 of (r1, st3) \<Rightarrow> ((r1, Inr c2), st3))
           | (Waiting p2, st2) \<Rightarrow>
               if firstEndsFirst
               then (case connectResume env1 st2 docUrl collabUrl p1 of
                       (r1, st3) \<Rightarrow>
                         (case connectResume env2 st3 docUrl collabUrl p2 of
                            (r2, st4) \<Rightarrow> ((r1, r2), st4)))
               else (case connectResume env2 st2 docUrl collabUrl p2 of
                       (r2, st3) \<Rightarrow>
                         (case connectResume env1 st3 docUrl collabUrl p1 of
                            (r1, st4) \<Rightarrow> ((r1, r2), st4)))))"

text \<open>Blocks for the examples.\<close>

definition paragraphBlock :: "jsstring \<Rightarrow> block" where
  "paragraphBlock t = \<lparr>btype = Paragraph, text_of = t\<rparr>"

definition headingBlock :: "int \<Rightarrow> jsstring \<Rightarrow> block" where
  "headingBlock n t = \<lparr>btype = Heading (Num n), text_of = t\<rparr>"

text \<open>
  What it means for the search text to occur in the inline text of a document,
  regardless of case: some text node has, at some offset, a part as long as the search
  text that lower-cases to the same string as the search text. This speaks of the text
  itself, not of its lower-cased copy.
\<close>

definition occursAt :: "jsstring \<Rightarrow> jsstring \<Rightarrow> nat \<Rightarrow> bool" where
  "occursAt s t k =
     (k + length s \<le> length t
      \<and> toLowerCase s \<noteq> None
      \<and> toLowerCase (take (length s) (drop k t)) = toLowerCase s)"

definition occursIn :: "jsstring \<Rightarrow> document \<Rightarrow> bool" where
  "occursIn s d = (\<exists>b \<in> set d. text_of b \<noteq> [] \<and> (\<exists>k \<in> {..length (text_of b)}. occursAt s (text_of b) k))"

text \<open>
  The selections that the service makes run forwards and lie within the document. This
  holds of the session that \<open>connect\<close> builds and is kept by every operation, so it holds
  in every state that the service reaches from its start by its own operations (what
  other participants do to the document in the meantime is not part of the model).
\<close>

definition forwardSelection :: "'r connection \<Rightarrow> bool" where
  "forwardSelection c =
     (anchor (doc c) (selection c) \<le> head (doc c) (selection c)
      \<and> head (doc c) (selection c) \<le> contentSize (doc c))"

definition sessionsForward :: "'r documentOperations \<Rightarrow> bool" where
  "sessionsForward st = (\<forall>k c. connections st k = Some c \<longrightarrow> forwardSelection c)"

inductive reachable :: "(document \<Rightarrow> nat \<Rightarrow> 'r) \<Rightarrow> 'r documentOperations \<Rightarrow> bool"
  for toRel :: "document \<Rightarrow> nat \<Rightarrow> 'r" where
  start: "reachable toRel noConnections"
| afterPositionCursor:
    "reachable toRel st \<Longrightarrow> positionCursor toRel env st docUrl collabUrl searchText = Some (r, st')
     \<Longrightarrow> reachable toRel st'"
| afterDeleteBlock:
    "reachable toRel st \<Longrightarrow> deleteBlock toRel env st docUrl collabUrl = (r, st')
     \<Longrightarrow> reachable toRel st'"
| afterInsertAtCursor:
    "reachable toRel st \<Longrightarrow> insertAtCursor toRel env st docUrl collabUrl text nodeType = (r, st')
     \<Longrightarrow> reachable toRel st'"
| afterReplaceText:
    "reachable toRel st \<Longrightarrow> replaceText toRel env st docUrl collabUrl findText' replaceText' = Some (r, st')
     \<Longrightarrow> reachable toRel st'"
| afterDisconnect:
    "reachable toRel st \<Longrightarrow> reachable toRel (disconnect st docUrl collabUrl)"

text \<open>The lower case of a code unit of the alphabet other than U+0130.\<close>

definition lowerChar :: "code_unit \<Rightarrow> code_unit" where
  "lowerChar c =
     (if 65 \<le> c \<and> c \<le> 90 then c + 32
      else if 192 \<le> c \<and> c \<le> 222 \<and> c \<noteq> 215 then c + 32
      else c)"

section \<open>The session cache: reuse, timeout, overlapping calls and key collisions\<close>

lemma connectResume_synced:
  "sync env \<noteq> TimerFirst \<Longrightarrow>
   connectResume env st docUrl collabUrl p =
     (Inr (newConnection p (remoteDoc env)),
      st\<lparr>connections := (connections st)(cacheKey docUrl collabUrl \<mapsto> newConnection p (remoteDoc env))\<rparr>)"
  by (cases "sync env") (simp_all add: connectResume_def Let_def)

lemma newConnection_inject [simp]:
  "(newConnection p d = (newConnection q e :: 'r connection)) = (p = q \<and> d = e)"
  by (auto simp: newConnection_def)

text \<open>
  C4. When the cache already holds a session for the Document Identity, a call of
  \<open>connect\<close> with nothing running in between returns that very session and leaves the
  service as it was: no provider is opened and the cache is unchanged, whatever the
  environment would have answered.
\<close>

theorem connect_returns_cached_session:
  assumes "connections st (cacheKey docUrl collabUrl) = Some c"
  shows "connect env st docUrl collabUrl = (Inr c, st)"
  using assms by (simp add: connect_def connectStart_def)

text \<open>An instance: the session stored by a first \<open>connect\<close> is what a second one returns.\<close>

theorem connect_returns_cached_session_witness:
  "connections \<lparr>connections = [cacheKey (lit ''doc'') (lit ''ws://h'') \<mapsto>
                    (newConnection 0 [paragraphBlock (lit ''Intro'')] :: nat connection)],
                opened = 1\<rparr> (cacheKey (lit ''doc'') (lit ''ws://h''))
     = Some (newConnection 0 [paragraphBlock (lit ''Intro'')])
   \<and> connect \<lparr>sync = TimerFirst, remoteDoc = []\<rparr>
        \<lparr>connections = [cacheKey (lit ''doc'') (lit ''ws://h'') \<mapsto>
            (newConnection 0 [paragraphBlock (lit ''Intro'')] :: nat connection)],
         opened = 1\<rparr> (lit ''doc'') (lit ''ws://h'')
     = (Inr (newConnection 0 [paragraphBlock (lit ''Intro'')]),
        \<lparr>connections = [cacheKey (lit ''doc'') (lit ''ws://h'') \<mapsto>
            newConnection 0 [paragraphBlock (lit ''Intro'')]],
         opened = 1\<rparr>)"
proof -
  let ?st = "\<lparr>connections = [cacheKey (lit ''doc'') (lit ''ws://h'') \<mapsto>
                 (newConnection 0 [paragraphBlock (lit ''Intro'')] :: nat connection)],
              opened = 1\<rparr>"
  have h: "connections ?st (cacheKey (lit ''doc'') (lit ''ws://h''))
             = Some (newConnection 0 [paragraphBlock (lit ''Intro'')])"
    by simp
  from h connect_returns_cached_session [OF h] show ?thesis by (rule conjI)
qed

text \<open>
  C5. When the timer of \<open>connect\<close> fires before the provider is synced, the resumed call
  raises \<open>Sync timeout\<close> and leaves the cache as it finds it, so the session under
  construction is never stored; and a call for an identity without a cached session
  then fails with that error and the cache still has no entry for the identity.
\<close>

theorem connect_sync_timeout:
  assumes "sync env = TimerFirst"
  shows "connectResume env st docUrl collabUrl p = (Inl (Error (lit ''Sync timeout'')), st)
     \<and> (connections st (cacheKey docUrl collabUrl) = None \<longrightarrow>
          (\<exists>st'. connect env st docUrl collabUrl = (Inl (Error (lit ''Sync timeout'')), st')
             \<and> connections st' = connections st
             \<and> connections st' (cacheKey docUrl collabUrl) = None))"
  using assms by (simp add: connect_def connectStart_def connectResume_def)

text \<open>An instance: the first \<open>connect\<close> of a fresh service times out.\<close>

theorem connect_sync_timeout_witness:
  "sync \<lparr>sync = TimerFirst, remoteDoc = [paragraphBlock (lit ''Intro'')]\<rparr> = TimerFirst
   \<and> connections (noConnections :: nat documentOperations) (cacheKey (lit ''doc'') (lit ''ws://h'')) = None
   \<and> (\<exists>st'. connect \<lparr>sync = TimerFirst, remoteDoc = [paragraphBlock (lit ''Intro'')]\<rparr>
               (noConnections :: nat documentOperations) (lit ''doc'') (lit ''ws://h'')
             = (Inl (Error (lit ''Sync timeout'')), st')
           \<and> connections st' (cacheKey (lit ''doc'') (lit ''ws://h'')) = None)"
proof -
  let ?env = "\<lparr>sync = TimerFirst, remoteDoc = [paragraphBlock (lit ''Intro'')]\<rparr>"
  have h1: "sync ?env = TimerFirst" by simp
  have h2: "connections (noConnections :: nat documentOperations)
              (cacheKey (lit ''doc'') (lit ''ws://h'')) = None"
    by (simp add: noConnections_def)
  from connect_sync_timeout [OF h1, of "noConnections :: nat documentOperations" "lit ''doc''" "lit ''ws://h''"] h2
  have "\<exists>st'. connect ?env (noConnections :: nat documentOperations) (lit ''doc'') (lit ''ws://h'')
             = (Inl (Error (lit ''Sync timeout'')), st')
           \<and> connections st' (cacheKey (lit ''doc'') (lit ''ws://h'')) = None"
    by blast
  with h1 h2 show ?thesis by blast
qed

text \<open>
  C3, as stated, fails: two overlapping calls of \<open>connect\<close> on a fresh service, both
  synced in time, open two providers and return two different sessions.
\<close>

theorem connect_overlapping_counterexample:
  "(case connectTwice \<lparr>sync = SyncFirst, remoteDoc = [paragraphBlock (lit ''Intro'')]\<rparr>
           \<lparr>sync = SyncFirst, remoteDoc = [paragraphBlock (lit ''Intro'')]\<rparr> True
           (noConnections :: nat documentOperations)
           (lit ''https://admin.da.live/source/o/r/p.html'') (lit ''ws://localhost:4711'') of
      ((r1, r2), st') \<Rightarrow>
        r1 = Inr (newConnection 0 [paragraphBlock (lit ''Intro'')])
        \<and> r2 = Inr (newConnection 1 [paragraphBlock (lit ''Intro'')])
        \<and> r1 \<noteq> r2 \<and> opened st' = 2)"
  by (simp add: connectTwice_def connectStart_def connectResume_synced noConnections_def)

text \<open>
  C3, amended. When \<open>connect\<close> is called twice for one Document Identity that has no
  cached session, the second call starting while the first waits for its provider, and
  both providers sync in time, each call opens a provider of its own and returns a
  session of its own; the cache ends with the session of the call that resumed last.
\<close>

theorem connect_overlapping_sessions:
  assumes "connections st (cacheKey docUrl collabUrl) = None"
    and "sync env1 \<noteq> TimerFirst" and "sync env2 \<noteq> TimerFirst"
  shows "connectTwice env1 env2 firstEndsFirst st docUrl collabUrl =
           ((Inr (newConnection (opened st) (remoteDoc env1)),
             Inr (newConnection (Suc (opened st)) (remoteDoc env2))),
            st\<lparr>opened := Suc (Suc (opened st)),
               connections := (connections st)(cacheKey docUrl collabUrl \<mapsto>
                 (if firstEndsFirst then newConnection (Suc (opened st)) (remoteDoc env2)
                  else newConnection (opened st) (remoteDoc env1)))\<rparr>)"
  using assms
  by (simp add: connectTwice_def connectStart_def connectResume_synced)

text \<open>An instance: the second call resumes first.\<close>

theorem connect_overlapping_sessions_witness:
  "connections (noConnections :: nat documentOperations)
       (cacheKey (lit ''https://admin.da.live/source/o/r/p.html'') (lit ''ws://localhost:4711'')) = None
   \<and> sync \<lparr>sync = SyncFirst, remoteDoc = [paragraphBlock (lit ''Intro'')]\<rparr> \<noteq> TimerFirst
   \<and> fst (connectTwice \<lparr>sync = SyncFirst, remoteDoc = [paragraphBlock (lit ''Intro'')]\<rparr>
           \<lparr>sync = SyncFirst, remoteDoc = [paragraphBlock (lit ''Intro'')]\<rparr> False
           (noConnections :: nat documentOperations)
           (lit ''https://admin.da.live/source/o/r/p.html'') (lit ''ws://localhost:4711''))
       = (Inr (newConnection 0 [paragraphBlock (lit ''Intro'')]),
          Inr (newConnection 1 [paragraphBlock (lit ''Intro'')]))"
proof -
  let ?env = "\<lparr>sync = SyncFirst, remoteDoc = [paragraphBlock (lit ''Intro'')]\<rparr>"
  let ?d = "lit ''https://admin.da.live/source/o/r/p.html''"
  let ?c = "lit ''ws://localhost:4711''"
  have h1: "connections (noConnections :: nat documentOperations) (cacheKey ?d ?c) = None"
    by (simp add: noConnections_def)
  have h2: "sync ?env \<noteq> TimerFirst" by simp
  show ?thesis
    using h1 h2 connect_overlapping_sessions [OF h1 h2 h2, of False]
    by (simp add: noConnections_def)
qed

text \<open>
  C10. The cache key \<open>collabUrl + ":" + docUrl\<close> does not separate Document Identities:
  the identity with document URL \<open>4711:https://admin.da.live/doc\<close> at endpoint
  \<open>ws://collab\<close> and the identity with document URL \<open>https://admin.da.live/doc\<close> at
  endpoint \<open>ws://collab:4711\<close> are different and have the same key, so once \<open>connect\<close>
  has returned a session for the first, \<open>connect\<close> for the second returns that same
  session, whatever its own endpoint would have delivered.
\<close>

theorem cacheKey_collision:
  assumes "connect env st (lit ''4711:https://admin.da.live/doc'') (lit ''ws://collab'') = (Inr s, st1)"
  shows "(lit ''4711:https://admin.da.live/doc'', lit ''ws://collab'')
           \<noteq> (lit ''https://admin.da.live/doc'', lit ''ws://collab:4711'')
     \<and> cacheKey (lit ''4711:https://admin.da.live/doc'') (lit ''ws://collab'')
         = cacheKey (lit ''https://admin.da.live/doc'') (lit ''ws://collab:4711'')
     \<and> connect env' st1 (lit ''https://admin.da.live/doc'') (lit ''ws://collab:4711'') = (Inr s, st1)"
proof -
  have k: "cacheKey (lit ''4711:https://admin.da.live/doc'') (lit ''ws://collab'')
         = cacheKey (lit ''https://admin.da.live/doc'') (lit ''ws://collab:4711'')"
    by (simp add: cacheKey_def lit_def)
  have d: "lit ''4711:https://admin.da.live/doc'' \<noteq> lit ''https://admin.da.live/doc''"
    by (simp add: lit_def)
  have "connections st1 (cacheKey (lit ''4711:https://admin.da.live/doc'') (lit ''ws://collab'')) = Some s"
    using assms
    by (auto simp: connect_def connectStart_def connectResume_def Let_def
             split: option.splits syncWait.splits)
  then have "connect env' st1 (lit ''https://admin.da.live/doc'') (lit ''ws://collab:4711'') = (Inr s, st1)"
    unfolding k by (simp add: connect_def connectStart_def)
  with k d show ?thesis by simp
qed

text \<open>
  An instance: on a fresh service the first identity is connected and receives a
  document; the second identity, whose endpoint holds another document, gets the
  session of the first.
\<close>

theorem cacheKey_collision_witness:
  "connect \<lparr>sync = SyncFirst, remoteDoc = [paragraphBlock (lit ''Intro'')]\<rparr>
       (noConnections :: nat documentOperations)
       (lit ''4711:https://admin.da.live/doc'') (lit ''ws://collab'')
     = (Inr (newConnection 0 [paragraphBlock (lit ''Intro'')]),
        \<lparr>connections = [cacheKey (lit ''4711:https://admin.da.live/doc'') (lit ''ws://collab'')
                          \<mapsto> newConnection 0 [paragraphBlock (lit ''Intro'')]],
         opened = 1\<rparr>)
   \<and> connect \<lparr>sync = SyncFirst, remoteDoc = [headingBlock 1 (lit ''Other'')]\<rparr>
       \<lparr>connections = [cacheKey (lit ''4711:https://admin.da.live/doc'') (lit ''ws://collab'')
                          \<mapsto> newConnection 0 [paragraphBlock (lit ''Intro'')]],
         opened = 1\<rparr>
       (lit ''https://admin.da.live/doc'') (lit ''ws://collab:4711'')
     = (Inr (newConnection 0 [paragraphBlock (lit ''Intro'')] :: nat connection),
        \<lparr>connections = [cacheKey (lit ''4711:https://admin.da.live/doc'') (lit ''ws://collab'')
                          \<mapsto> newConnection 0 [paragraphBlock (lit ''Intro'')]],
         opened = 1\<rparr>)"
proof -
  let ?env = "\<lparr>sync = SyncFirst, remoteDoc = [paragraphBlock (lit ''Intro'')]\<rparr>"
  let ?st1 = "\<lparr>connections = [cacheKey (lit ''4711:https://admin.da.live/doc'') (lit ''ws://collab'')
                          \<mapsto> (newConnection 0 [paragraphBlock (lit ''Intro'')] :: nat connection)],
         opened = 1\<rparr>"
  have h: "connect ?env (noConnections :: nat documentOperations)
       (lit ''4711:https://admin.da.live/doc'') (lit ''ws://collab'')
     = (Inr (newConnection 0 [paragraphBlock (lit ''Intro'')]), ?st1)"
    by (simp add: connect_def connectStart_def connectResume_synced noConnections_def)
  have r: "connect \<lparr>sync = SyncFirst, remoteDoc = [headingBlock 1 (lit ''Other'')]\<rparr> ?st1
       (lit ''https://admin.da.live/doc'') (lit ''ws://collab:4711'')
     = (Inr (newConnection 0 [paragraphBlock (lit ''Intro'')]), ?st1)"
    using cacheKey_collision [OF h] by blast
  from h r show ?thesis by (rule conjI)
qed

section \<open>The cursor projection plugin\<close>

text \<open>
  C9. The plugin publishes nothing for the whole-document placeholder: a view update
  in which the selection is \<open>AllSelection\<close> leaves the session, and with it the awareness
  record and its log of published cursors, exactly as it was; in particular a dispatched
  transaction that ends in the placeholder publishes nothing.
\<close>

theorem placeholder_selection_not_published:
  "awareness (dispatch toRel c d AllSelection) = awareness c
   \<and> (selection c = AllSelection \<longrightarrow> updateCursorInfo toRel c = c)"
  by (simp add: dispatch_def updateCursorInfo_def)

text \<open>
  An instance: the view of a session on an empty document starts with the placeholder,
  and an update publishes no cursor.
\<close>

theorem placeholder_selection_not_published_witness:
  "selection (newConnection 0 [] :: nat connection) = AllSelection
   \<and> updateCursorInfo (\<lambda>d p. p) (newConnection 0 [] :: nat connection) = newConnection 0 []
   \<and> broadcasts (awareness (dispatch (\<lambda>d p. p)
        (newConnection 0 [paragraphBlock (lit ''a'')] :: nat connection) [] AllSelection)) = []"
  using placeholder_selection_not_published [of "\<lambda>d p. p" "newConnection 0 [] :: nat connection" "[]"]
        placeholder_selection_not_published
          [of "\<lambda>d p. p" "newConnection 0 [paragraphBlock (lit ''a'')] :: nat connection" "[]"]
  by (simp add: newConnection_def atStart_def)

section \<open>Searching and resolving positions\<close>

lemma take_eq_prefix: "(take (length s) t = s) = prefix s t"
  by (metis append_eq_conv_conj prefix_def take_is_prefix)

lemma indexOf_None: "(indexOf t s = None) = (\<not> sublist s t)"
  by (induction t) (auto simp: take_eq_prefix sublist_Cons_right simp del: take_Suc_Cons)

lemma indexOf_Some:
  "indexOf t s = Some i \<Longrightarrow>
   i + length s \<le> length t \<and> take (length s) (drop i t) = s
   \<and> (\<forall>j<i. take (length s) (drop j t) \<noteq> s)"
proof (induction t arbitrary: i)
  case Nil
  then show ?case by (auto split: if_splits)
next
  case (Cons c cs)
  show ?case
  proof (cases "take (length s) (c # cs) = s")
    case True
    then have "length (take (length s) (c # cs)) = length s" by simp
    then have "length s \<le> length (c # cs)"
      unfolding length_take by linarith
    with True Cons.prems show ?thesis by simp
  next
    case False
    with Cons.prems obtain k where k: "indexOf cs s = Some k" "i = Suc k" by auto
    from Cons.IH [OF k(1)] have ih: "k + length s \<le> length cs" "take (length s) (drop k cs) = s"
      "\<forall>j<k. take (length s) (drop j cs) \<noteq> s" by auto
    have "\<forall>j<i. take (length s) (drop j (c # cs)) \<noteq> s"
    proof (intro allI impI)
      fix j assume "j < i"
      show "take (length s) (drop j (c # cs)) \<noteq> s"
      proof (cases j)
        case 0 with False show ?thesis by simp
      next
        case (Suc j') with \<open>j < i\<close> k(2) ih(3) show ?thesis by simp
      qed
    qed
    with ih k(2) show ?thesis by simp
  qed
qed

lemma contentSize_Nil [simp]: "contentSize [] = 0"
  by (simp add: contentSize_def)

lemma contentSize_Cons [simp]: "contentSize (b # bs) = nodeSize b + contentSize bs"
  by (simp add: contentSize_def)

lemma contentSize_append [simp]: "contentSize (xs @ ys) = contentSize xs + contentSize ys"
  by (simp add: contentSize_def)

lemma nodeSize_ge2: "2 \<le> nodeSize b"
  by (simp add: nodeSize_def)

lemma resolveFrom_None: "(resolveFrom d pos j = None) = (contentSize d < pos)"
proof (induction d arbitrary: pos j)
  case Nil then show ?case by simp
next
  case (Cons b bs)
  show ?case using nodeSize_ge2 [of b] by (auto simp: Cons.IH)
qed

lemma resolve_None: "(resolve d pos = None) = (contentSize d < pos)"
  by (simp add: resolve_def resolveFrom_None)

lemma resolveFrom_InBlock:
  "i < length d \<Longrightarrow> blockStart d i < pos \<Longrightarrow> pos < blockStart d i + nodeSize (d ! i) \<Longrightarrow>
   resolveFrom d pos j = Some (InBlock (j + i) (pos - blockStart d i - 1))"
proof (induction d arbitrary: pos i j)
  case Nil then show ?case by simp
next
  case (Cons b bs)
  show ?case
  proof (cases i)
    case 0
    with Cons.prems show ?thesis by (simp add: blockStart_def)
  next
    case (Suc i')
    with Cons.prems have p: "i' < length bs" "blockStart bs i' < pos - nodeSize b"
      "pos - nodeSize b < blockStart bs i' + nodeSize (bs ! i')" "nodeSize b \<le> pos"
      by (auto simp: blockStart_def)
    from Cons.IH [OF p(1-3), of "Suc j"] p(4) Suc nodeSize_ge2 [of b]
    show ?thesis by (simp add: blockStart_def)
  qed
qed

lemma resolveFrom_AtTop:
  "k \<le> length d \<Longrightarrow> resolveFrom d (blockStart d k) j = Some (AtTop (j + k))"
proof (induction d arbitrary: k j)
  case Nil then show ?case by (simp add: blockStart_def)
next
  case (Cons b bs)
  show ?case
  proof (cases k)
    case 0 then show ?thesis by (simp add: blockStart_def)
  next
    case (Suc k')
    with Cons.prems have "k' \<le> length bs" by simp
    from Cons.IH [OF this, of "Suc j"] Suc nodeSize_ge2 [of b]
    show ?thesis by (simp add: blockStart_def)
  qed
qed

lemma resolveFrom_Some_InBlock:
  "resolveFrom d pos j = Some (InBlock i off) \<Longrightarrow>
   j \<le> i \<and> i - j < length d \<and> off \<le> length (text_of (d ! (i - j)))
   \<and> pos = blockStart d (i - j) + 1 + off"
proof (induction d arbitrary: pos j)
  case Nil then show ?case by (simp split: if_splits)
next
  case (Cons b bs)
  show ?case
  proof (cases "pos = 0")
    case True with Cons.prems show ?thesis by simp
  next
    case False
    show ?thesis
    proof (cases "pos < nodeSize b")
      case True
      with False Cons.prems show ?thesis by (auto simp: blockStart_def nodeSize_def)
    next
      case ge: False
      with False Cons.prems have "resolveFrom bs (pos - nodeSize b) (Suc j) = Some (InBlock i off)"
        by simp
      from Cons.IH [OF this] have ih: "Suc j \<le> i" "i - Suc j < length bs"
        "off \<le> length (text_of (bs ! (i - Suc j)))"
        "pos - nodeSize b = blockStart bs (i - Suc j) + 1 + off" by auto
      from ih(1) have e: "i - j = Suc (i - Suc j)" by arith
      from ih ge show ?thesis unfolding e by (simp add: blockStart_def)
    qed
  qed
qed

lemma resolveFrom_Some_AtTop:
  "resolveFrom d pos j = Some (AtTop k) \<Longrightarrow>
   j \<le> k \<and> k - j \<le> length d \<and> pos = blockStart d (k - j)"
proof (induction d arbitrary: pos j)
  case Nil then show ?case by (simp add: blockStart_def split: if_splits)
next
  case (Cons b bs)
  show ?case
  proof (cases "pos = 0")
    case True with Cons.prems show ?thesis by (simp add: blockStart_def)
  next
    case False
    show ?thesis
    proof (cases "pos < nodeSize b")
      case True
      with False Cons.prems show ?thesis by simp
    next
      case ge: False
      with False Cons.prems have "resolveFrom bs (pos - nodeSize b) (Suc j) = Some (AtTop k)"
        by simp
      from Cons.IH [OF this] have ih: "Suc j \<le> k" "k - Suc j \<le> length bs"
        "pos - nodeSize b = blockStart bs (k - Suc j)" by auto
      from ih(1) have e: "k - j = Suc (k - Suc j)" by arith
      from ih ge show ?thesis unfolding e by (simp add: blockStart_def)
    qed
  qed
qed

lemma mapPos_le:
  "start + old \<le> n \<Longrightarrow> p \<le> n \<Longrightarrow> mapPos (start, old, new) p \<le> n - old + new"
  by auto

lemma mapSelection_ok:
  assumes "selTo d sel \<le> n" and "start + old \<le> n" and "contentSize d' = n - old + new"
  shows "\<exists>s. mapSelection d' (start, old, new) sel = Inr s"
proof (cases sel)
  case AllSelection
  then show ?thesis by simp
next
  case (TextSelection a h)
  with assms(1) have "a \<le> n" "h \<le> n" by (simp_all add: selTo_def)
  then have a: "mapPos (start, old, new) a \<le> contentSize d'"
    and h: "mapPos (start, old, new) h \<le> contentSize d'"
    using mapPos_le [OF assms(2), of a new] mapPos_le [OF assms(2), of h new] assms(3)
    by (simp_all del: mapPos.simps)
  from a have ra: "resolve d' (mapPos (start, old, new) a) \<noteq> None" by (simp add: resolve_None)
  from h have rh: "resolve d' (mapPos (start, old, new) h) \<noteq> None" by (simp add: resolve_None)
  from ra rh show ?thesis unfolding TextSelection
    by (auto simp del: mapPos.simps split: option.splits resolvedPos.splits)
qed

lemma contentSize_split:
  "i < length d \<Longrightarrow> contentSize d = blockStart d i + nodeSize (d ! i) + contentSize (drop (Suc i) d)"
proof -
  assume "i < length d"
  then have "d = take i d @ d ! i # drop (Suc i) d" by (rule id_take_nth_drop)
  then have "contentSize d = contentSize (take i d @ d ! i # drop (Suc i) d)" by simp
  then show ?thesis by (simp add: blockStart_def)
qed

lemma contentSize_take_drop: "contentSize (take k d) + contentSize (drop k d) = contentSize d"
  by (metis append_take_drop_id contentSize_append)

lemma resolve_InBlock:
  "i < length d \<Longrightarrow> blockStart d i < pos \<Longrightarrow> pos < blockStart d i + nodeSize (d ! i) \<Longrightarrow>
   resolve d pos = Some (InBlock i (pos - blockStart d i - 1))"
  using resolveFrom_InBlock [of i d pos 0] by (simp add: resolve_def)

lemma resolve_AtTop:
  "k \<le> length d \<Longrightarrow> resolve d (blockStart d k) = Some (AtTop k)"
  using resolveFrom_AtTop [of k d 0] by (simp add: resolve_def)

lemma resolve_Some_InBlock:
  "resolve d pos = Some (InBlock i off) \<Longrightarrow>
   i < length d \<and> off \<le> length (text_of (d ! i)) \<and> pos = blockStart d i + 1 + off"
  using resolveFrom_Some_InBlock [of d pos 0 i off] by (simp add: resolve_def)

lemma resolve_Some_AtTop:
  "resolve d pos = Some (AtTop k) \<Longrightarrow> k \<le> length d \<and> pos = blockStart d k"
  using resolveFrom_Some_AtTop [of d pos 0 k] by (simp add: resolve_def)

lemma deleteSpan_many:
  "1 < length d \<Longrightarrow> deleteSpan d i = (take i d @ drop (Suc i) d, (blockStart d i, nodeSize (d ! i), 0))"
  by (simp add: deleteSpan_def)

lemma insert_ok:
  assumes "pos \<le> contentSize d"
  shows "\<exists>d' start old new. insert d pos node = Inr (d', (start, old, new))
           \<and> start + old \<le> contentSize d
           \<and> contentSize d' = contentSize d - old + new
           \<and> node \<in> set d'"
proof (cases "resolve d pos")
  case None
  with assms show ?thesis by (simp add: resolve_None)
next
  case (Some r)
  show ?thesis
  proof (cases r)
    case (AtTop k)
    have "contentSize (take k d @ [node] @ drop k d) = contentSize d + nodeSize node"
      using contentSize_take_drop [of k d] by simp
    with Some AtTop assms show ?thesis by (simp add: insert_def)
  next
    case (InBlock i off)
    with Some have r: "i < length d" "off \<le> length (text_of (d ! i))" "pos = blockStart d i + 1 + off"
      using resolve_Some_InBlock [of d pos i off] by auto
    from r(1) have cs: "contentSize d = blockStart d i + nodeSize (d ! i) + contentSize (drop (Suc i) d)"
      by (rule contentSize_split)
    show ?thesis
    proof (cases "off = length (text_of (d ! i))")
      case True
      have "contentSize (take (Suc i) d @ [node] @ drop (Suc i) d) = contentSize d + nodeSize node"
        using contentSize_take_drop [of "Suc i" d] by simp
      moreover have "pos + 1 \<le> contentSize d"
        using r(3) True cs by (simp add: nodeSize_def)
      ultimately show ?thesis using Some InBlock True by (simp add: insert_def Let_def)
    next
      case False
      let ?b = "d ! i"
      have "contentSize (take i d @ [?b\<lparr>text_of := take off (text_of ?b)\<rparr>, node,
                                     ?b\<lparr>text_of := drop off (text_of ?b)\<rparr>] @ drop (Suc i) d)
              = contentSize d + nodeSize node + 2"
        using cs r(2) by (simp add: blockStart_def nodeSize_def)
      then show ?thesis using Some InBlock False assms by (simp add: insert_def Let_def)
    qed
  qed
qed

lemma doc_dispatch [simp]: "doc (dispatch toRel c d s) = d"
  by (simp add: dispatch_def updateCursorInfo_def Let_def split: selection.splits)

lemma selection_dispatch [simp]: "selection (dispatch toRel c d s) = s"
  by (simp add: dispatch_def updateCursorInfo_def Let_def split: selection.splits)

text \<open>The equations that evaluate the operations on a concrete service.\<close>

lemmas eval_simps = positionCursor_def replaceText_def insertAtCursor_def deleteBlock_def
  connect_def connectStart_def connectResume_def noConnections_def newConnection_def
  positionCursorOn_def replaceTextOn_def insertAtCursorOn_def deleteBlockOn_def
  findText_def paragraphBlock_def headingBlock_def lit_def lowerUnit_def
  nodeSize_def textSelectionCreate_def resolve_def dispatch_def updateCursorInfo_def finish_def
  atStart_def setCursorField_def decimal.simps cacheKey_def schemaText_def replaceWith_def
  insert_def deleteSpan_def createNode_def startsWith_def parseInt_def isWhiteSpace_def
  digitValue_def near_def selFrom_def selTo_def blockStart_def failed_def notFound_def
  outOfRange_def Let_def

section \<open>The operations\<close>

text \<open>
  C1 at the input where the code leaves it. The document is the single paragraph whose
  text is U+0130 (capital I with dot above) followed by \<open>stanbul\<close>, and the search text
  is \<open>stanbul\<close>, which stands at offset 1 of the paragraph's text, that is at positions
  2 to 9. Lower-casing turns U+0130 into two code units, \<open>findText\<close> takes the index 2 of
  the match in the lower-cased text for an index into the text itself, and
  \<open>positionCursor\<close> reports and selects the positions 3 to 10: the match without its
  first character, and the closing of the paragraph.
\<close>

theorem positionCursor_misplaced_span:
  "occursIn (lit ''stanbul'') [paragraphBlock (304 # lit ''stanbul'')]
   \<and> drop 1 (304 # lit ''stanbul'') = lit ''stanbul''
   \<and> (case positionCursor (\<lambda>d p. p) \<lparr>sync = SyncFirst, remoteDoc = [paragraphBlock (304 # lit ''stanbul'')]\<rparr>
             (noConnections :: nat documentOperations) (lit ''doc'') (lit ''ws://h'') (lit ''stanbul'') of
         None \<Rightarrow> False
       | Some (r, st') \<Rightarrow>
           r = \<lparr>success = True, message = lit ''Found \"stanbul\" at position 3-10'', position = Some (3, 10)\<rparr>
           \<and> map_option selection (connections st' (cacheKey (lit ''doc'') (lit ''ws://h'')))
               = Some (TextSelection 3 10))"
proof -
  have "occursAt (lit ''stanbul'') (304 # lit ''stanbul'') 1"
    by (simp add: occursAt_def lit_def lowerUnit_def)
  then have o: "occursIn (lit ''stanbul'') [paragraphBlock (304 # lit ''stanbul'')]"
    unfolding occursIn_def by (auto simp: paragraphBlock_def lit_def intro!: bexI [of _ 1])
  have d: "drop 1 (304 # lit ''stanbul'') = lit ''stanbul''" by simp
  have p: "(case positionCursor (\<lambda>d p. p) \<lparr>sync = SyncFirst, remoteDoc = [paragraphBlock (304 # lit ''stanbul'')]\<rparr>
             (noConnections :: nat documentOperations) (lit ''doc'') (lit ''ws://h'') (lit ''stanbul'') of
         None \<Rightarrow> False
       | Some (r, st') \<Rightarrow>
           r = \<lparr>success = True, message = lit ''Found \"stanbul\" at position 3-10'', position = Some (3, 10)\<rparr>
           \<and> map_option selection (connections st' (cacheKey (lit ''doc'') (lit ''ws://h'')))
               = Some (TextSelection 3 10))"
    by (simp add: eval_simps)
  from o d p show ?thesis by blast
qed

text \<open>
  C2 at the input where the code leaves it. The document is the single paragraph whose
  text is U+0130 followed by \<open>ab\<close>, and the search text is the single code unit U+0307
  (combining dot above). No part of the text equals the search text up to case: the
  parts of length one are U+0130, \<open>a\<close> and \<open>b\<close>, and none of them lower-cases to U+0307.
  The lower-cased copy of the text, however, holds U+0307 at index 1, as the second code
  unit of the lower case of U+0130. So \<open>positionCursor\<close> returns success with the span 2
  to 3, which is the letter \<open>a\<close>, and \<open>replaceText\<close> returns success and overwrites that
  letter: the document is changed.
\<close>

theorem absent_text_found:
  "\<not> occursIn [775] [paragraphBlock (304 # lit ''ab'')]
   \<and> (case positionCursor (\<lambda>d p. p) \<lparr>sync = SyncFirst, remoteDoc = [paragraphBlock (304 # lit ''ab'')]\<rparr>
             (noConnections :: nat documentOperations) (lit ''doc'') (lit ''ws://h'') [775] of
         None \<Rightarrow> False
       | Some (r, st') \<Rightarrow>
           r = \<lparr>success = True, message = lit ''Found \"'' @ [775] @ lit ''\" at position 2-3'',
                position = Some (2, 3)\<rparr>)
   \<and> (case replaceText (\<lambda>d p. p) \<lparr>sync = SyncFirst, remoteDoc = [paragraphBlock (304 # lit ''ab'')]\<rparr>
             (noConnections :: nat documentOperations) (lit ''doc'') (lit ''ws://h'') [775] (lit ''Q'') of
         None \<Rightarrow> False
       | Some (r, st') \<Rightarrow>
           r = \<lparr>success = True, message = lit ''Text replaced successfully'', position = None\<rparr>
           \<and> map_option doc (connections st' (cacheKey (lit ''doc'') (lit ''ws://h'')))
               = Some [paragraphBlock (304 # lit ''Qb'')])"
proof -
  have n: "\<not> occursAt [775] (304 # lit ''ab'') k" for k
  proof
    assume a: "occursAt [775] (304 # lit ''ab'') k"
    then have "k + 1 \<le> 3" by (simp add: occursAt_def lit_def)
    then have "k = 0 \<or> k = 1 \<or> k = 2" by arith
    with a show False by (auto simp: occursAt_def lit_def lowerUnit_def)
  qed
  have o: "\<not> occursIn [775] [paragraphBlock (304 # lit ''ab'')]"
    by (simp add: occursIn_def paragraphBlock_def n)
  have p: "(case positionCursor (\<lambda>d p. p) \<lparr>sync = SyncFirst, remoteDoc = [paragraphBlock (304 # lit ''ab'')]\<rparr>
             (noConnections :: nat documentOperations) (lit ''doc'') (lit ''ws://h'') [775] of
         None \<Rightarrow> False
       | Some (r, st') \<Rightarrow>
           r = \<lparr>success = True, message = lit ''Found \"'' @ [775] @ lit ''\" at position 2-3'',
                position = Some (2, 3)\<rparr>)"
    by (simp add: eval_simps)
  have r: "(case replaceText (\<lambda>d p. p) \<lparr>sync = SyncFirst, remoteDoc = [paragraphBlock (304 # lit ''ab'')]\<rparr>
             (noConnections :: nat documentOperations) (lit ''doc'') (lit ''ws://h'') [775] (lit ''Q'') of
         None \<Rightarrow> False
       | Some (r, st') \<Rightarrow>
           r = \<lparr>success = True, message = lit ''Text replaced successfully'', position = None\<rparr>
           \<and> map_option doc (connections st' (cacheKey (lit ''doc'') (lit ''ws://h'')))
               = Some [paragraphBlock (304 # lit ''Qb'')])"
    by (simp add: eval_simps)
  from o p r show ?thesis by blast
qed

text \<open>
  C8 at the input where the code leaves it. The document is the single paragraph whose
  text is U+0130 twice followed by \<open>xyz\<close>. \<open>replaceText\<close> of \<open>x\<close> by \<open>q\<close> returns success
  (it replaces the text two positions to the right of the match, for the reason given
  at C1, so the text becomes U+0130 twice followed by \<open>xyq\<close>). The following
  \<open>positionCursor\<close> of \<open>q\<close> computes the span 7 to 8 in a document of size 7, the
  selection cannot be created, and the operation returns \<open>success: false\<close>.
\<close>

theorem replaced_text_not_found:
  "(case replaceText (\<lambda>d p. p) \<lparr>sync = SyncFirst, remoteDoc = [paragraphBlock ([304, 304] @ lit ''xyz'')]\<rparr>
           (noConnections :: nat documentOperations) (lit ''doc'') (lit ''ws://h'') (lit ''x'') (lit ''q'') of
      None \<Rightarrow> False
    | Some (r, st') \<Rightarrow>
        r = \<lparr>success = True, message = lit ''Text replaced successfully'', position = None\<rparr>
        \<and> map_option doc (connections st' (cacheKey (lit ''doc'') (lit ''ws://h'')))
            = Some [paragraphBlock ([304, 304] @ lit ''xyq'')]
        \<and> map_option fst (positionCursor (\<lambda>d p. p) \<lparr>sync = SyncFirst, remoteDoc = []\<rparr> st'
                 (lit ''doc'') (lit ''ws://h'') (lit ''q''))
            = Some \<lparr>success = False, message = lit ''Error: Position 8 out of range'', position = None\<rparr>)"
  by (simp add: eval_simps)

subsection \<open>Texts without U+0130\<close>

text \<open>
  The three failures above need U+0130. Over the alphabet of \<open>toLowerCase\<close> without it,
  lower-casing is the map of \<open>lowerChar\<close>, lengths are kept, and the search of the code is
  the search for a part of the text that equals the search text up to case.
\<close>

lemma toLowerCase_Some_iff: "(toLowerCase s \<noteq> None) = (\<forall>c \<in> set s. lowerUnit c \<noteq> None)"
  by (induction s) (auto split: option.splits)

lemma toLowerCase_plain:
  "304 \<notin> set s \<Longrightarrow> toLowerCase s \<noteq> None \<Longrightarrow> toLowerCase s = Some (map lowerChar s)"
proof (induction s)
  case Nil
  then show ?case by simp
next
  case (Cons c cs)
  from Cons.prems have "toLowerCase cs \<noteq> None" "304 \<notin> set cs" "c \<noteq> 304" "lowerUnit c \<noteq> None"
    by (auto split: option.splits)
  with Cons.IH show ?case
    by (auto simp: lowerUnit_def lowerChar_def split: if_splits)
qed

lemma toLowerCase_slice_plain:
  assumes "304 \<notin> set t" and "toLowerCase t \<noteq> None"
  shows "toLowerCase (take n (drop k t)) = Some (take n (drop k (map lowerChar t)))"
proof -
  have sub: "set (take n (drop k t)) \<subseteq> set t"
    by (meson set_take_subset set_drop_subset subset_trans)
  with assms(1) have a: "304 \<notin> set (take n (drop k t))" by blast
  from assms(2) sub have b: "toLowerCase (take n (drop k t)) \<noteq> None"
    unfolding toLowerCase_Some_iff by blast
  from toLowerCase_plain [OF a b] show ?thesis by (simp add: take_map drop_map)
qed

lemma occursAt_plain:
  assumes "304 \<notin> set t" and "toLowerCase t \<noteq> None" and "304 \<notin> set s" and "toLowerCase s \<noteq> None"
  shows "occursAt s t k =
           (k + length s \<le> length t \<and> take (length s) (drop k (map lowerChar t)) = map lowerChar s)"
  by (simp add: occursAt_def toLowerCase_slice_plain [OF assms(1,2)] toLowerCase_plain [OF assms(3,4)])

lemma take_drop_sublist: "sublist (take n (drop k xs)) xs"
  by (meson sublist_drop sublist_order.order_trans sublist_take)

lemma search_plain:
  assumes "304 \<notin> set t" and "toLowerCase t \<noteq> None" and "304 \<notin> set s" and "toLowerCase s \<noteq> None"
  shows "toLowerCase t = Some (map lowerChar t) \<and> toLowerCase s = Some (map lowerChar s)
     \<and> (case indexOf (map lowerChar t) (map lowerChar s) of
           None \<Rightarrow> \<forall>k. \<not> occursAt s t k
         | Some k \<Rightarrow> occursAt s t k \<and> (\<forall>j<k. \<not> occursAt s t j))"
proof (cases "indexOf (map lowerChar t) (map lowerChar s)")
  case None
  then have "\<not> sublist (map lowerChar s) (map lowerChar t)" by (simp add: indexOf_None)
  then have "\<forall>k. take (length s) (drop k (map lowerChar t)) \<noteq> map lowerChar s"
    by (metis take_drop_sublist)
  with None assms show ?thesis
    by (simp add: occursAt_plain toLowerCase_plain)
next
  case (Some k)
  from indexOf_Some [OF Some] assms Some show ?thesis
    by (simp add: occursAt_plain toLowerCase_plain)
qed

lemma findTextFrom_plain:
  assumes "\<forall>b \<in> set d. 304 \<notin> set (text_of b) \<and> toLowerCase (text_of b) \<noteq> None"
    and "304 \<notin> set s" and "toLowerCase s \<noteq> None"
  shows "(case findTextFrom d pos s of
            None \<Rightarrow> False
          | Some None \<Rightarrow> \<not> occursIn s d
          | Some (Some f) \<Rightarrow>
              (\<exists>i k. i < length d \<and> text_of (d ! i) \<noteq> []
                 \<and> occursAt s (text_of (d ! i)) k
                 \<and> (\<forall>j<k. \<not> occursAt s (text_of (d ! i)) j)
                 \<and> (\<forall>j<i. \<not> occursIn s [d ! j])
                 \<and> f = pos + blockStart d i + 1 + k))"
  using assms(1)
proof (induction d arbitrary: pos)
  case Nil
  then show ?case by (simp add: occursIn_def)
next
  case (Cons b bs)
  from Cons.prems have bs: "\<forall>b \<in> set bs. 304 \<notin> set (text_of b) \<and> toLowerCase (text_of b) \<noteq> None"
    and b: "304 \<notin> set (text_of b)" "toLowerCase (text_of b) \<noteq> None" by auto
  note ih = Cons.IH [OF bs, of "pos + nodeSize b"]
  have step: "\<not> occursIn s [b] \<Longrightarrow> findTextFrom (b # bs) pos s = findTextFrom bs (pos + nodeSize b) s
      \<Longrightarrow> ?case"
  proof -
    assume nb: "\<not> occursIn s [b]" and eq: "findTextFrom (b # bs) pos s = findTextFrom bs (pos + nodeSize b) s"
    show ?case
    proof (cases "findTextFrom bs (pos + nodeSize b) s")
      case None
      with ih show ?thesis by simp
    next
      case (Some r)
      show ?thesis
      proof (cases r)
        case None
        with Some ih nb eq show ?thesis by (auto simp: occursIn_def)
      next
        case (Some f)
        with \<open>findTextFrom bs (pos + nodeSize b) s = Some r\<close> ih
        obtain i k where ik: "i < length bs" "text_of (bs ! i) \<noteq> []"
          "occursAt s (text_of (bs ! i)) k" "\<forall>j<k. \<not> occursAt s (text_of (bs ! i)) j"
          "\<forall>j<i. \<not> occursIn s [bs ! j]" "f = pos + nodeSize b + blockStart bs i + 1 + k"
          by auto
        have "\<forall>j<Suc i. \<not> occursIn s [(b # bs) ! j]"
        proof (intro allI impI)
          fix j assume "j < Suc i"
          then show "\<not> occursIn s [(b # bs) ! j]" using nb ik(5) by (cases j) auto
        qed
        with ik have "\<exists>i k. i < length (b # bs) \<and> text_of ((b # bs) ! i) \<noteq> []
                 \<and> occursAt s (text_of ((b # bs) ! i)) k
                 \<and> (\<forall>j<k. \<not> occursAt s (text_of ((b # bs) ! i)) j)
                 \<and> (\<forall>j<i. \<not> occursIn s [(b # bs) ! j])
                 \<and> f = pos + blockStart (b # bs) i + 1 + k"
          by (intro exI [of _ "Suc i"] exI [of _ k]) (simp add: blockStart_def)
        with Some \<open>findTextFrom bs (pos + nodeSize b) s = Some r\<close> eq show ?thesis by simp
      qed
    qed
  qed
  show ?case
  proof (cases "text_of b = []")
    case True
    then have "\<not> occursIn s [b]" by (simp add: occursIn_def)
    moreover from True have "findTextFrom (b # bs) pos s = findTextFrom bs (pos + nodeSize b) s" by simp
    ultimately show ?thesis by (rule step)
  next
    case False
    note sp = search_plain [OF b assms(2,3)]
    show ?thesis
    proof (cases "indexOf (map lowerChar (text_of b)) (map lowerChar s)")
      case None
      with sp have "\<forall>k. \<not> occursAt s (text_of b) k" by simp
      then have "\<not> occursIn s [b]" by (simp add: occursIn_def)
      moreover from None sp False
      have "findTextFrom (b # bs) pos s = findTextFrom bs (pos + nodeSize b) s" by simp
      ultimately show ?thesis by (rule step)
    next
      case (Some k)
      with sp have o: "occursAt s (text_of b) k" "\<forall>j<k. \<not> occursAt s (text_of b) j" by simp_all
      from Some sp False have f: "findTextFrom (b # bs) pos s = Some (Some (pos + 1 + k))" by simp
      have "\<exists>i k'. i < length (b # bs) \<and> text_of ((b # bs) ! i) \<noteq> []
                 \<and> occursAt s (text_of ((b # bs) ! i)) k'
                 \<and> (\<forall>j<k'. \<not> occursAt s (text_of ((b # bs) ! i)) j)
                 \<and> (\<forall>j<i. \<not> occursIn s [(b # bs) ! j])
                 \<and> pos + 1 + k = pos + blockStart (b # bs) i + 1 + k'"
        using o False by (intro exI [of _ 0] exI [of _ k]) (simp add: blockStart_def)
      with f show ?thesis by simp
    qed
  qed
qed

text \<open>
  On such a document, with such a search text: when the search text occurs,
  \<open>positionCursor\<close> returns success with the span of the first occurrence (in the first
  block that has one, at the least offset) and sets the selection to that span; when it
  does not occur, \<open>positionCursor\<close> and \<open>replaceText\<close> return the not-found result and
  leave the session as it is.
\<close>

lemma positionCursorOn_exact_span:
  assumes "\<forall>b \<in> set (doc c). 304 \<notin> set (text_of b) \<and> toLowerCase (text_of b) \<noteq> None"
    and "304 \<notin> set s" and "toLowerCase s \<noteq> None"
    and "occursIn s (doc c)"
  shows "\<exists>i k. i < length (doc c)
     \<and> occursAt s (text_of (doc c ! i)) k
     \<and> (\<forall>j<k. \<not> occursAt s (text_of (doc c ! i)) j)
     \<and> (\<forall>j<i. \<not> occursIn s [doc c ! j])
     \<and> positionCursorOn toRel c s =
          Some (Inr (\<lparr>success = True,
                      message = lit ''Found \"'' @ s @ lit ''\" at position ''
                                  @ decimal (blockStart (doc c) i + 1 + k) @ lit ''-''
                                  @ decimal (blockStart (doc c) i + 1 + k + length s),
                      position = Some (blockStart (doc c) i + 1 + k,
                                       blockStart (doc c) i + 1 + k + length s)\<rparr>,
                     dispatch toRel c (doc c)
                       (TextSelection (blockStart (doc c) i + 1 + k)
                                      (blockStart (doc c) i + 1 + k + length s))))"
proof -
  let ?d = "doc c"
  from findTextFrom_plain [OF assms(1-3), of 0] assms(4)
  obtain f i k where f: "findTextFrom ?d 0 s = Some (Some f)"
    and ik: "i < length ?d" "occursAt s (text_of (?d ! i)) k"
      "\<forall>j<k. \<not> occursAt s (text_of (?d ! i)) j" "\<forall>j<i. \<not> occursIn s [?d ! j]"
      "f = blockStart ?d i + 1 + k"
    by (auto split: option.splits)
  from ik(2) have b: "k + length s \<le> length (text_of (?d ! i))" by (simp add: occursAt_def)
  have cs: "contentSize ?d = blockStart ?d i + nodeSize (?d ! i) + contentSize (drop (Suc i) ?d)"
    using ik(1) by (rule contentSize_split)
  have "f + length s \<le> contentSize ?d"
    using b cs unfolding ik(5) by (simp add: nodeSize_def)
  then have "resolve ?d f \<noteq> None" "resolve ?d (f + length s) \<noteq> None"
    by (simp_all add: resolve_None)
  then have ts: "textSelectionCreate ?d f (f + length s) = Inr (TextSelection f (f + length s))"
    by (auto simp: textSelectionCreate_def)
  have "positionCursorOn toRel c s =
          Some (Inr (\<lparr>success = True,
                      message = lit ''Found \"'' @ s @ lit ''\" at position '' @ decimal f @ lit ''-''
                                  @ decimal (f + length s),
                      position = Some (f, f + length s)\<rparr>,
                     dispatch toRel c ?d (TextSelection f (f + length s))))"
    by (simp add: positionCursorOn_def findText_def f ts)
  with ik(1-4) show ?thesis unfolding ik(5) by blast
qed

lemma occursInI:
  "i < length d \<Longrightarrow> text_of (d ! i) \<noteq> [] \<Longrightarrow> occursAt s (text_of (d ! i)) k \<Longrightarrow> occursIn s d"
  unfolding occursIn_def
  by (rule bexI [of _ "d ! i"], rule conjI, assumption, rule bexI [of _ k])
     (auto simp: occursAt_def)

lemma search_absent_plain:
  assumes "\<forall>b \<in> set (doc c). 304 \<notin> set (text_of b) \<and> toLowerCase (text_of b) \<noteq> None"
    and "304 \<notin> set s" and "toLowerCase s \<noteq> None"
    and "\<not> occursIn s (doc c)"
  shows "positionCursorOn toRel c s = Some (Inr (notFound s, c))
     \<and> replaceTextOn toRel c s replacement = Some (Inr (notFound s, c))"
proof -
  from findTextFrom_plain [OF assms(1-3), of 0] assms(4)
  have "findTextFrom (doc c) 0 s = Some None"
    by (auto split: option.splits dest: occursInI)
  then show ?thesis
    by (simp add: positionCursorOn_def replaceTextOn_def findText_def)
qed

subsection \<open>Selections run forwards\<close>

text \<open>
  \<open>deleteBlock\<close> works at the start \<open>$from\<close> of the selection: it removes the block around
  that position, and fails when that position is at the top level.
\<close>

lemma deleteBlock_at_selection_start:
  assumes "connect env st docUrl collabUrl = (Inr c, st')"
    and "selTo (doc c) (selection c) \<le> contentSize (doc c)"
  shows "(1 < length (doc c) \<and> i < length (doc c)
            \<and> blockStart (doc c) i < selFrom (doc c) (selection c)
            \<and> selFrom (doc c) (selection c) < blockStart (doc c) i + nodeSize (doc c ! i)
          \<longrightarrow> (\<exists>c'. deleteBlock toRel env st docUrl collabUrl =
                   (\<lparr>success = True, message = lit ''Block deleted successfully'', position = None\<rparr>,
                    st'\<lparr>connections := (connections st')(cacheKey docUrl collabUrl \<mapsto> c')\<rparr>)
                 \<and> doc c' = take i (doc c) @ drop (Suc i) (doc c)
                 \<and> length (doc c') = length (doc c) - 1))
     \<and> (k \<le> length (doc c) \<and> selFrom (doc c) (selection c) = blockStart (doc c) k
          \<longrightarrow> deleteBlock toRel env st docUrl collabUrl =
                 (\<lparr>success = False,
                   message = lit ''Error: There is no position before the top-level node'',
                   position = None\<rparr>, st'))"
proof (intro conjI impI)
  assume a: "1 < length (doc c) \<and> i < length (doc c)
            \<and> blockStart (doc c) i < selFrom (doc c) (selection c)
            \<and> selFrom (doc c) (selection c) < blockStart (doc c) i + nodeSize (doc c ! i)"
  let ?d = "doc c"
  let ?d' = "take i ?d @ drop (Suc i) ?d"
  from a have r: "resolve ?d (selFrom ?d (selection c))
       = Some (InBlock i (selFrom ?d (selection c) - blockStart ?d i - 1))"
    using resolve_InBlock [of i ?d "selFrom ?d (selection c)"] by blast
  from a have ds: "deleteSpan ?d i = (?d', (blockStart ?d i, nodeSize (?d ! i), 0))"
    by (simp add: deleteSpan_many)
  from a have cs: "contentSize ?d = blockStart ?d i + nodeSize (?d ! i) + contentSize (drop (Suc i) ?d)"
    by (simp add: contentSize_split)
  then have le: "blockStart ?d i + nodeSize (?d ! i) \<le> contentSize ?d" by simp
  have cs': "contentSize ?d' = contentSize ?d - nodeSize (?d ! i) + 0"
    using cs by (simp add: blockStart_def)
  from mapSelection_ok [OF assms(2) le cs']
  obtain s where s: "mapSelection ?d' (blockStart ?d i, nodeSize (?d ! i), 0) (selection c) = Inr s"
    by blast
  have len: "length ?d' = length ?d - 1" using a by simp
  have "deleteBlock toRel env st docUrl collabUrl =
          (\<lparr>success = True, message = lit ''Block deleted successfully'', position = None\<rparr>,
           st'\<lparr>connections := (connections st')(cacheKey docUrl collabUrl \<mapsto> dispatch toRel c ?d' s)\<rparr>)"
    by (simp add: deleteBlock_def assms(1) deleteBlockOn_def r ds s finish_def)
  moreover have "doc (dispatch toRel c ?d' s) = ?d'"
    by (simp add: dispatch_def updateCursorInfo_def Let_def split: selection.splits)
  ultimately show "\<exists>c'. deleteBlock toRel env st docUrl collabUrl =
                   (\<lparr>success = True, message = lit ''Block deleted successfully'', position = None\<rparr>,
                    st'\<lparr>connections := (connections st')(cacheKey docUrl collabUrl \<mapsto> c')\<rparr>)
                 \<and> doc c' = ?d' \<and> length (doc c') = length ?d - 1"
    using len by metis
next
  assume a: "k \<le> length (doc c) \<and> selFrom (doc c) (selection c) = blockStart (doc c) k"
  then have r: "resolve (doc c) (selFrom (doc c) (selection c)) = Some (AtTop k)"
    by (simp add: resolve_AtTop)
  show "deleteBlock toRel env st docUrl collabUrl =
                 (\<lparr>success = False,
                   message = lit ''Error: There is no position before the top-level node'',
                   position = None\<rparr>, st')"
    by (simp add: deleteBlock_def assms(1) deleteBlockOn_def r finish_def failed_def lit_def)
qed

text \<open>
  Mapping through a step keeps the order of two positions, and the selections that
  \<open>connect\<close> and \<open>positionCursor\<close> make run forwards and lie within the document. So every
  session of every state that the service reaches has its anchor at the start of its
  selection.
\<close>

lemma mapPos_mono: "a \<le> h \<Longrightarrow> mapPos m a \<le> mapPos m h"
  by (cases m) auto

lemma near_forward:
  assumes "resolve d pos = Some (AtTop k)"
  shows "anchor d (near d pos k) \<le> head d (near d pos k) \<and> head d (near d pos k) \<le> contentSize d"
proof -
  from assms have k: "k \<le> length d" "pos = blockStart d k" using resolve_Some_AtTop by auto
  from assms have le: "pos \<le> contentSize d"
    using resolve_None [of d pos] by (cases "contentSize d < pos") auto
  show ?thesis
  proof (cases "k < length d")
    case True
    from contentSize_split [OF True] k(2) nodeSize_ge2 [of "d ! k"]
    have "pos + 1 \<le> contentSize d" by simp
    with True show ?thesis by (simp add: near_def)
  next
    case False
    with le show ?thesis by (auto simp: near_def)
  qed
qed

lemma mapSelection_forward:
  assumes "mapSelection d' m sel = Inr s" and "anchor d sel \<le> head d sel"
  shows "anchor d' s \<le> head d' s \<and> head d' s \<le> contentSize d'"
proof (cases sel)
  case AllSelection
  with assms(1) show ?thesis by auto
next
  case (TextSelection a h)
  with assms(2) have ah: "mapPos m a \<le> mapPos m h" by (simp add: mapPos_mono)
  show ?thesis
  proof (cases "resolve d' (mapPos m h)")
    case None
    with assms(1) TextSelection show ?thesis by simp
  next
    case (Some rh)
    then have le: "mapPos m h \<le> contentSize d'"
      using resolve_None [of d' "mapPos m h"] by (cases "contentSize d' < mapPos m h") auto
    show ?thesis
    proof (cases rh)
      case (AtTop k)
      with Some assms(1) TextSelection have "s = near d' (mapPos m h) k" by simp
      with near_forward [of d' "mapPos m h" k] Some AtTop show ?thesis by simp
    next
      case (InBlock i off)
      with Some assms(1) TextSelection ah le show ?thesis
        by (auto split: option.splits resolvedPos.splits)
    qed
  qed
qed

lemma forwardSelection_dispatch:
  "forwardSelection (dispatch toRel c d s) = (anchor d s \<le> head d s \<and> head d s \<le> contentSize d)"
  by (simp add: forwardSelection_def)

lemma newConnection_forward: "forwardSelection (newConnection p d)"
proof (cases d)
  case Nil
  then show ?thesis by (simp add: forwardSelection_def newConnection_def atStart_def)
next
  case (Cons b bs)
  with nodeSize_ge2 [of b] show ?thesis
    by (simp add: forwardSelection_def newConnection_def atStart_def)
qed

lemma positionCursorOn_forward:
  assumes "positionCursorOn toRel c s = Some (Inr (r, c'))" and "forwardSelection c"
  shows "forwardSelection c'"
proof (cases "findText (doc c) s")
  case None
  with assms(1) show ?thesis by (simp add: positionCursorOn_def)
next
  case (Some found)
  show ?thesis
  proof (cases found)
    case None
    with Some assms show ?thesis by (simp add: positionCursorOn_def)
  next
    case (Some ft)
    obtain f t where ft: "ft = (f, t)" by (cases ft)
    from \<open>findText (doc c) s = Some found\<close> Some ft have "t = f + length s"
      by (auto simp: findText_def)
    moreover from \<open>findText (doc c) s = Some found\<close> Some ft assms(1)
    have "c' = dispatch toRel c (doc c) (TextSelection f t)" "resolve (doc c) t \<noteq> None"
      by (auto simp: positionCursorOn_def textSelectionCreate_def split: option.splits sum.splits)
    ultimately show ?thesis
      using resolve_None [of "doc c" t] by (auto simp: forwardSelection_dispatch)
  qed
qed

lemma deleteBlockOn_forward:
  assumes "deleteBlockOn toRel c = Inr (r, c')" and "forwardSelection c"
  shows "forwardSelection c'"
  using assms
  by (auto simp: deleteBlockOn_def forwardSelection_dispatch forwardSelection_def
           split: option.splits resolvedPos.splits prod.splits sum.splits
           dest: mapSelection_forward)

lemma insertAtCursorOn_forward:
  assumes "insertAtCursorOn toRel c text nodeType = Inr (r, c')" and "forwardSelection c"
  shows "forwardSelection c'"
  using assms
  by (auto simp: insertAtCursorOn_def forwardSelection_dispatch forwardSelection_def
           split: option.splits prod.splits sum.splits
           dest: mapSelection_forward)

lemma replaceTextOn_forward:
  assumes "replaceTextOn toRel c s t = Some (Inr (r, c'))" and "forwardSelection c"
  shows "forwardSelection c'"
  using assms
  by (auto simp: replaceTextOn_def forwardSelection_dispatch forwardSelection_def
           split: option.splits prod.splits sum.splits
           dest: mapSelection_forward)

lemma connect_forward:
  assumes "sessionsForward st" and "connect env st docUrl collabUrl = (r, st')"
  shows "sessionsForward st' \<and> (\<forall>c. r = Inr c \<longrightarrow> forwardSelection c)"
  using assms newConnection_forward
  by (auto simp: connect_def connectStart_def connectResume_def sessionsForward_def Let_def
           split: option.splits syncWait.splits if_splits)

lemma finish_forward:
  assumes "sessionsForward st" and "\<forall>res c'. r = Inr (res, c') \<longrightarrow> forwardSelection c'"
  shows "sessionsForward (snd (finish st k r))"
  using assms
  by (auto simp: finish_def sessionsForward_def split: sum.splits)

lemma positionCursor_forward:
  assumes "sessionsForward st" and "positionCursor toRel env st docUrl collabUrl s = Some (r, st')"
  shows "sessionsForward st'"
proof (cases "connect env st docUrl collabUrl")
  case (Pair rc st1)
  note cf = connect_forward [OF assms(1) Pair]
  show ?thesis
  proof (cases rc)
    case (Inl e)
    with Pair assms(2) cf show ?thesis by (simp add: positionCursor_def)
  next
    case (Inr c)
    with Pair assms(2) obtain b where b: "positionCursorOn toRel c s = Some b"
      "(r, st') = finish st1 (cacheKey docUrl collabUrl) b"
      by (auto simp: positionCursor_def)
    from cf Inr have "forwardSelection c" by simp
    with b(1) have "\<forall>res c'. b = Inr (res, c') \<longrightarrow> forwardSelection c'"
      by (auto dest: positionCursorOn_forward)
    from finish_forward [OF _ this, of st1 "cacheKey docUrl collabUrl"] cf b(2)
    show ?thesis by (metis snd_conv)
  qed
qed

lemma deleteBlock_forward:
  assumes "sessionsForward st" and "deleteBlock toRel env st docUrl collabUrl = (r, st')"
  shows "sessionsForward st'"
proof (cases "connect env st docUrl collabUrl")
  case (Pair rc st1)
  note cf = connect_forward [OF assms(1) Pair]
  show ?thesis
  proof (cases rc)
    case (Inl e)
    with Pair assms(2) cf show ?thesis by (simp add: deleteBlock_def)
  next
    case (Inr c)
    with Pair assms(2) have b: "(r, st') = finish st1 (cacheKey docUrl collabUrl) (deleteBlockOn toRel c)"
      by (auto simp: deleteBlock_def)
    from cf Inr have "forwardSelection c" by simp
    then have "\<forall>res c'. deleteBlockOn toRel c = Inr (res, c') \<longrightarrow> forwardSelection c'"
      by (auto dest: deleteBlockOn_forward)
    from finish_forward [OF _ this, of st1 "cacheKey docUrl collabUrl"] cf b
    show ?thesis by (metis snd_conv)
  qed
qed

lemma insertAtCursor_forward:
  assumes "sessionsForward st" and "insertAtCursor toRel env st docUrl collabUrl text nodeType = (r, st')"
  shows "sessionsForward st'"
proof (cases "connect env st docUrl collabUrl")
  case (Pair rc st1)
  note cf = connect_forward [OF assms(1) Pair]
  show ?thesis
  proof (cases rc)
    case (Inl e)
    with Pair assms(2) cf show ?thesis by (simp add: insertAtCursor_def)
  next
    case (Inr c)
    with Pair assms(2)
    have b: "(r, st') = finish st1 (cacheKey docUrl collabUrl) (insertAtCursorOn toRel c text nodeType)"
      by (auto simp: insertAtCursor_def)
    from cf Inr have "forwardSelection c" by simp
    then have "\<forall>res c'. insertAtCursorOn toRel c text nodeType = Inr (res, c') \<longrightarrow> forwardSelection c'"
      by (auto dest: insertAtCursorOn_forward)
    from finish_forward [OF _ this, of st1 "cacheKey docUrl collabUrl"] cf b
    show ?thesis by (metis snd_conv)
  qed
qed

lemma replaceText_forward:
  assumes "sessionsForward st" and "replaceText toRel env st docUrl collabUrl s t = Some (r, st')"
  shows "sessionsForward st'"
proof (cases "connect env st docUrl collabUrl")
  case (Pair rc st1)
  note cf = connect_forward [OF assms(1) Pair]
  show ?thesis
  proof (cases rc)
    case (Inl e)
    with Pair assms(2) cf show ?thesis by (simp add: replaceText_def)
  next
    case (Inr c)
    with Pair assms(2) obtain b where b: "replaceTextOn toRel c s t = Some b"
      "(r, st') = finish st1 (cacheKey docUrl collabUrl) b"
      by (auto simp: replaceText_def)
    from cf Inr have "forwardSelection c" by simp
    with b(1) have "\<forall>res c'. b = Inr (res, c') \<longrightarrow> forwardSelection c'"
      by (auto dest: replaceTextOn_forward)
    from finish_forward [OF _ this, of st1 "cacheKey docUrl collabUrl"] cf b(2)
    show ?thesis by (metis snd_conv)
  qed
qed

lemma disconnect_forward: "sessionsForward st \<Longrightarrow> sessionsForward (disconnect st docUrl collabUrl)"
  by (auto simp: disconnect_def sessionsForward_def split: option.splits if_splits)

lemma reachable_forward: "reachable toRel st \<Longrightarrow> sessionsForward st"
proof (induction rule: reachable.induct)
  case start
  show ?case by (simp add: sessionsForward_def noConnections_def)
next
  case (afterPositionCursor st env docUrl collabUrl searchText r st')
  then show ?case by (blast intro: positionCursor_forward)
next
  case (afterDeleteBlock st env docUrl collabUrl r st')
  then show ?case by (blast intro: deleteBlock_forward)
next
  case (afterInsertAtCursor st env docUrl collabUrl content nodeType r st')
  then show ?case by (blast intro: insertAtCursor_forward)
next
  case (afterReplaceText st env docUrl collabUrl findText' replaceText' r st')
  then show ?case by (blast intro: replaceText_forward)
next
  case (afterDisconnect st docUrl collabUrl)
  then show ?case by (blast intro: disconnect_forward)
qed

text \<open>
  C7. In every state that the service reaches, for the session that \<open>connect\<close> returns:
  when the document has more than one block and the anchor of the selection lies inside
  the block with index \<open>i\<close>, \<open>deleteBlock\<close> returns success and the document becomes the
  blocks before \<open>i\<close> followed by the blocks after \<open>i\<close>, unchanged, which is one block
  fewer; when the anchor is at the top level, where no enclosing block exists (as for
  the placeholder selection of an empty document), \<open>deleteBlock\<close> returns
  \<open>success: false\<close> and changes nothing.
\<close>

theorem deleteBlock_removes_anchor_block:
  assumes "reachable toRel st"
    and "connect env st docUrl collabUrl = (Inr c, st')"
  shows "(1 < length (doc c) \<and> i < length (doc c)
            \<and> blockStart (doc c) i < anchor (doc c) (selection c)
            \<and> anchor (doc c) (selection c) < blockStart (doc c) i + nodeSize (doc c ! i)
          \<longrightarrow> (\<exists>c'. deleteBlock toRel env st docUrl collabUrl =
                   (\<lparr>success = True, message = lit ''Block deleted successfully'', position = None\<rparr>,
                    st'\<lparr>connections := (connections st')(cacheKey docUrl collabUrl \<mapsto> c')\<rparr>)
                 \<and> doc c' = take i (doc c) @ drop (Suc i) (doc c)
                 \<and> length (doc c') = length (doc c) - 1))
     \<and> (k \<le> length (doc c) \<and> anchor (doc c) (selection c) = blockStart (doc c) k
          \<longrightarrow> deleteBlock toRel env st docUrl collabUrl =
                 (\<lparr>success = False,
                   message = lit ''Error: There is no position before the top-level node'',
                   position = None\<rparr>, st'))"
proof -
  from assms(1) have "sessionsForward st" by (rule reachable_forward)
  from connect_forward [OF this assms(2)] have f: "forwardSelection c" by simp
  then have a: "selFrom (doc c) (selection c) = anchor (doc c) (selection c)"
    and h: "selTo (doc c) (selection c) \<le> contentSize (doc c)"
    by (simp_all add: forwardSelection_def selFrom_def selTo_def)
  from deleteBlock_at_selection_start [OF assms(2) h, of i toRel k] show ?thesis
    unfolding a .
qed

text \<open>
  An instance: \<open>positionCursor\<close> selects \<open>Old Title\<close> in the document of \<open>Intro\<close>,
  \<open>Old Title\<close> and \<open>Conclusion\<close>, and \<open>deleteBlock\<close> then removes the middle block; on an
  empty document, whose selection is the placeholder, the operation fails.
\<close>

theorem deleteBlock_removes_anchor_block_witness:
  "(case positionCursor (\<lambda>d p. p)
           \<lparr>sync = SyncFirst,
             remoteDoc = [paragraphBlock (lit ''Intro''), paragraphBlock (lit ''Old Title''),
                          paragraphBlock (lit ''Conclusion'')]\<rparr>
           (noConnections :: nat documentOperations) (lit ''doc'') (lit ''ws://h'') (lit ''Old Title'') of
      None \<Rightarrow> False
    | Some (r1, st1) \<Rightarrow>
        reachable (\<lambda>d p. p) st1
        \<and> map_option selection (connections st1 (cacheKey (lit ''doc'') (lit ''ws://h'')))
            = Some (TextSelection 8 17)
        \<and> (case deleteBlock (\<lambda>d p. p) \<lparr>sync = SyncFirst, remoteDoc = []\<rparr> st1
                   (lit ''doc'') (lit ''ws://h'') of
             (r, st2) \<Rightarrow>
               r = \<lparr>success = True, message = lit ''Block deleted successfully'', position = None\<rparr>
               \<and> map_option doc (connections st2 (cacheKey (lit ''doc'') (lit ''ws://h'')))
                   = Some [paragraphBlock (lit ''Intro''), paragraphBlock (lit ''Conclusion'')]))
   \<and> reachable (\<lambda>d p. p) (noConnections :: nat documentOperations)
   \<and> fst (deleteBlock (\<lambda>d p. p) \<lparr>sync = SyncFirst, remoteDoc = []\<rparr>
             (noConnections :: nat documentOperations) (lit ''doc'') (lit ''ws://h''))
       = \<lparr>success = False, message = lit ''Error: There is no position before the top-level node'',
          position = None\<rparr>"
proof -
  let ?D = "[paragraphBlock (lit ''Intro''), paragraphBlock (lit ''Old Title''),
             paragraphBlock (lit ''Conclusion'')]"
  let ?envD = "\<lparr>sync = SyncFirst, remoteDoc = ?D\<rparr>"
  let ?env = "\<lparr>sync = SyncFirst, remoteDoc = []\<rparr>"
  let ?key = "cacheKey (lit ''doc'') (lit ''ws://h'')"
  let ?c1 = "\<lparr>provider = 0, doc = ?D, selection = TextSelection 8 17,
              awareness = \<lparr>cursor = Some (8 :: nat, 17 :: nat), broadcasts = [Some (8, 17)]\<rparr>\<rparr>"
  have "(case positionCursor (\<lambda>d p. p) ?envD (noConnections :: nat documentOperations)
               (lit ''doc'') (lit ''ws://h'') (lit ''Old Title'') of
           None \<Rightarrow> False
         | Some (r1, st1) \<Rightarrow> connections st1 ?key = Some ?c1)"
    by (simp add: eval_simps)
  then obtain r1 st1 where
    p: "positionCursor (\<lambda>d p. p) ?envD (noConnections :: nat documentOperations)
          (lit ''doc'') (lit ''ws://h'') (lit ''Old Title'') = Some (r1, st1)"
    and c1: "connections st1 ?key = Some ?c1"
    by (auto split: option.splits)
  have reach: "reachable (\<lambda>d p. p) st1"
    by (rule reachable.afterPositionCursor [OF reachable.start p])
  have conn: "connect ?env st1 (lit ''doc'') (lit ''ws://h'') = (Inr ?c1, st1)"
    using c1 by (simp add: connect_def connectStart_def)
  have h3: "1 < length (doc ?c1) \<and> 1 < length (doc ?c1)
            \<and> blockStart (doc ?c1) 1 < anchor (doc ?c1) (selection ?c1)
            \<and> anchor (doc ?c1) (selection ?c1) < blockStart (doc ?c1) 1 + nodeSize (doc ?c1 ! 1)"
    by (simp add: blockStart_def paragraphBlock_def nodeSize_def lit_def)
  from deleteBlock_removes_anchor_block [OF reach conn, of 1 0] h3
  obtain c' where c': "deleteBlock (\<lambda>d p. p) ?env st1 (lit ''doc'') (lit ''ws://h'') =
       (\<lparr>success = True, message = lit ''Block deleted successfully'', position = None\<rparr>,
        st1\<lparr>connections := (connections st1)(?key \<mapsto> c')\<rparr>)"
      "doc c' = take 1 (doc ?c1) @ drop (Suc 1) (doc ?c1)"
    by blast
  have a: "(case positionCursor (\<lambda>d p. p) ?envD (noConnections :: nat documentOperations)
               (lit ''doc'') (lit ''ws://h'') (lit ''Old Title'') of
      None \<Rightarrow> False
    | Some (r1, st1) \<Rightarrow>
        reachable (\<lambda>d p. p) st1
        \<and> map_option selection (connections st1 ?key) = Some (TextSelection 8 17)
        \<and> (case deleteBlock (\<lambda>d p. p) ?env st1 (lit ''doc'') (lit ''ws://h'') of
             (r, st2) \<Rightarrow>
               r = \<lparr>success = True, message = lit ''Block deleted successfully'', position = None\<rparr>
               \<and> map_option doc (connections st2 ?key)
                   = Some [paragraphBlock (lit ''Intro''), paragraphBlock (lit ''Conclusion'')]))"
    unfolding p using reach c1 c' by simp
  let ?c0 = "newConnection 0 [] :: nat connection"
  let ?st0 = "\<lparr>connections = [?key \<mapsto> ?c0], opened = 1\<rparr>"
  have g0: "reachable (\<lambda>d p. p) (noConnections :: nat documentOperations)"
    by (rule reachable.start)
  have g1: "connect ?env (noConnections :: nat documentOperations) (lit ''doc'') (lit ''ws://h'')
              = (Inr ?c0, ?st0)"
    by (simp add: connect_def connectStart_def connectResume_synced noConnections_def)
  have g3: "0 \<le> length (doc ?c0) \<and> anchor (doc ?c0) (selection ?c0) = blockStart (doc ?c0) 0"
    by (simp add: newConnection_def atStart_def blockStart_def)
  from deleteBlock_removes_anchor_block [OF g0 g1, of 0 0] g3
  have b: "fst (deleteBlock (\<lambda>d p. p) ?env (noConnections :: nat documentOperations)
                  (lit ''doc'') (lit ''ws://h''))
       = \<lparr>success = False, message = lit ''Error: There is no position before the top-level node'',
          position = None\<rparr>"
    by simp
  from a g0 b show ?thesis by blast
qed

text \<open>
  C6, as stated, fails twice. The node type \<open>heading7\<close> is none of \<open>paragraph\<close>,
  \<open>heading1\<close>, ..., \<open>heading6\<close>, and \<open>insertAtCursor\<close> inserts a heading of level 7, not a
  paragraph. And with the unknown node type \<open>table\<close> and the empty text it returns
  \<open>success: false\<close>, since no text node can be empty.
\<close>

theorem insertAtCursor_fallback_counterexample:
  "(case insertAtCursor (\<lambda>d p. p) \<lparr>sync = SyncFirst, remoteDoc = []\<rparr>
            \<lparr>connections = [cacheKey (lit ''doc'') (lit ''ws://h'') \<mapsto>
                \<lparr>provider = 0, doc = [paragraphBlock (lit ''Intro'')], selection = TextSelection 1 6,
                  awareness = \<lparr>cursor = None :: (nat \<times> nat) option, broadcasts = []\<rparr>\<rparr>],
              opened = 1\<rparr> (lit ''doc'') (lit ''ws://h'') (lit ''Beaches'') (lit ''heading7'') of
         (r, st') \<Rightarrow>
           r = \<lparr>success = True, message = lit ''heading7 inserted successfully'', position = None\<rparr>
           \<and> map_option doc (connections st' (cacheKey (lit ''doc'') (lit ''ws://h'')))
               = Some [paragraphBlock (lit ''Intro''), headingBlock 7 (lit ''Beaches'')])
   \<and> fst (insertAtCursor (\<lambda>d p. p) \<lparr>sync = SyncFirst, remoteDoc = []\<rparr>
            \<lparr>connections = [cacheKey (lit ''doc'') (lit ''ws://h'') \<mapsto>
                \<lparr>provider = 0, doc = [paragraphBlock (lit ''Intro'')], selection = TextSelection 1 6,
                  awareness = \<lparr>cursor = None :: (nat \<times> nat) option, broadcasts = []\<rparr>\<rparr>],
              opened = 1\<rparr> (lit ''doc'') (lit ''ws://h'') [] (lit ''table''))
       = \<lparr>success = False, message = lit ''Error: Empty text nodes are not allowed'', position = None\<rparr>"
  by (simp add: eval_simps)

text \<open>
  C6, amended. Let the selection lie within the session's document. For every node type
  that is not \<open>paragraph\<close> and does not start with \<open>heading\<close>, and every non-empty text,
  \<open>insertAtCursor\<close> builds a paragraph with that text, inserts it at the end of the
  selection and returns success with the message naming the node type as given; the
  paragraph is a block of the resulting document.
\<close>

theorem insertAtCursor_fallback_paragraph:
  assumes "connect env st docUrl collabUrl = (Inr c, st')"
    and "selTo (doc c) (selection c) \<le> contentSize (doc c)"
    and "nodeType \<noteq> lit ''paragraph''"
    and "\<not> startsWith nodeType (lit ''heading'')"
    and "text \<noteq> []"
  shows "\<exists>c' m. insertAtCursor toRel env st docUrl collabUrl text nodeType =
             (\<lparr>success = True, message = nodeType @ lit '' inserted successfully'', position = None\<rparr>,
              st'\<lparr>connections := (connections st')(cacheKey docUrl collabUrl \<mapsto> c')\<rparr>)
          \<and> createNode nodeType text = Inr \<lparr>btype = Paragraph, text_of = text\<rparr>
          \<and> insert (doc c) (selTo (doc c) (selection c)) \<lparr>btype = Paragraph, text_of = text\<rparr>
               = Inr (doc c', m)
          \<and> \<lparr>btype = Paragraph, text_of = text\<rparr> \<in> set (doc c')"
proof -
  let ?node = "\<lparr>btype = Paragraph, text_of = text\<rparr>"
  have cn: "createNode nodeType text = Inr ?node"
    using assms(3-5) by (simp add: createNode_def schemaText_def)
  from insert_ok [OF assms(2), of ?node]
  obtain d' start old new where
    i: "insert (doc c) (selTo (doc c) (selection c)) ?node = Inr (d', (start, old, new))"
    and le: "start + old \<le> contentSize (doc c)"
    and cs: "contentSize d' = contentSize (doc c) - old + new"
    and mem: "?node \<in> set d'"
    by blast
  from mapSelection_ok [OF assms(2) le cs]
  obtain s where s: "mapSelection d' (start, old, new) (selection c) = Inr s" by blast
  have "insertAtCursor toRel env st docUrl collabUrl text nodeType =
          (\<lparr>success = True, message = nodeType @ lit '' inserted successfully'', position = None\<rparr>,
           st'\<lparr>connections := (connections st')(cacheKey docUrl collabUrl \<mapsto> dispatch toRel c d' s)\<rparr>)"
    by (simp add: insertAtCursor_def assms(1) insertAtCursorOn_def cn i s finish_def)
  with cn i mem show ?thesis
    by (metis doc_dispatch)
qed

text \<open>
  An instance: the node type \<open>table\<close> with \<open>Intro\<close> selected appends the paragraph
  \<open>Beaches\<close>.
\<close>

theorem insertAtCursor_fallback_paragraph_witness:
  "lit ''table'' \<noteq> lit ''paragraph'' \<and> \<not> startsWith (lit ''table'') (lit ''heading'')
   \<and> (case insertAtCursor (\<lambda>d p. p) \<lparr>sync = SyncFirst, remoteDoc = []\<rparr>
            \<lparr>connections = [cacheKey (lit ''doc'') (lit ''ws://h'') \<mapsto>
                \<lparr>provider = 0, doc = [paragraphBlock (lit ''Intro'')], selection = TextSelection 1 6,
                  awareness = \<lparr>cursor = None :: (nat \<times> nat) option, broadcasts = []\<rparr>\<rparr>],
              opened = 1\<rparr> (lit ''doc'') (lit ''ws://h'') (lit ''Beaches'') (lit ''table'') of
         (r, st') \<Rightarrow>
           r = \<lparr>success = True, message = lit ''table inserted successfully'', position = None\<rparr>
           \<and> map_option doc (connections st' (cacheKey (lit ''doc'') (lit ''ws://h'')))
               = Some [paragraphBlock (lit ''Intro''), paragraphBlock (lit ''Beaches'')])"
proof -
  let ?c = "\<lparr>provider = 0, doc = [paragraphBlock (lit ''Intro'')], selection = TextSelection 1 6,
             awareness = \<lparr>cursor = None :: (nat \<times> nat) option, broadcasts = []\<rparr>\<rparr>"
  let ?st = "\<lparr>connections = [cacheKey (lit ''doc'') (lit ''ws://h'') \<mapsto> ?c], opened = 1\<rparr>"
  let ?env = "\<lparr>sync = SyncFirst, remoteDoc = []\<rparr>"
  have h1: "connect ?env ?st (lit ''doc'') (lit ''ws://h'') = (Inr ?c, ?st)"
    by (simp add: connect_def connectStart_def)
  have h2: "selTo (doc ?c) (selection ?c) \<le> contentSize (doc ?c)"
    by (simp add: selTo_def paragraphBlock_def nodeSize_def lit_def)
  have h3: "lit ''table'' \<noteq> lit ''paragraph''" by (simp add: lit_def)
  have h4: "\<not> startsWith (lit ''table'') (lit ''heading'')" by (simp add: startsWith_def lit_def)
  have h5: "lit ''Beaches'' \<noteq> []" by (simp add: lit_def)
  from insertAtCursor_fallback_paragraph [OF h1 h2 h3 h4 h5, of "\<lambda>d p. p"]
  obtain c' m where c': "insertAtCursor (\<lambda>d p. p) ?env ?st (lit ''doc'') (lit ''ws://h'') (lit ''Beaches'') (lit ''table'') =
       (\<lparr>success = True, message = lit ''table'' @ lit '' inserted successfully'', position = None\<rparr>,
        ?st\<lparr>connections := (connections ?st)(cacheKey (lit ''doc'') (lit ''ws://h'') \<mapsto> c')\<rparr>)"
      "insert (doc ?c) (selTo (doc ?c) (selection ?c)) \<lparr>btype = Paragraph, text_of = lit ''Beaches''\<rparr>
         = Inr (doc c', m)"
    by blast
  from c'(2) have d: "doc c' = [paragraphBlock (lit ''Intro''), paragraphBlock (lit ''Beaches'')]"
    by (simp add: insert_def selTo_def resolve_def paragraphBlock_def nodeSize_def lit_def)
  have "(case insertAtCursor (\<lambda>d p. p) ?env ?st (lit ''doc'') (lit ''ws://h'') (lit ''Beaches'') (lit ''table'') of
         (r, st') \<Rightarrow>
           r = \<lparr>success = True, message = lit ''table inserted successfully'', position = None\<rparr>
           \<and> map_option doc (connections st' (cacheKey (lit ''doc'') (lit ''ws://h'')))
               = Some [paragraphBlock (lit ''Intro''), paragraphBlock (lit ''Beaches'')])"
    unfolding c'(1) using d by (simp add: lit_def)
  with h3 h4 show ?thesis by blast
qed

end
